theory Spec2Isabelle
  imports Complex_Main "HOL-Library.Word" "HOL-Library.AList" "HOL-Library.Sublist"
begin

section \<open>The filesystem cache backend (lib/cache/cache\_fs.js)\<close>

text \<open>
  A shallow embedding of \<^verbatim>\<open>CacheFS\<close> and \<^verbatim>\<open>PutTransactionFS\<close>. Buffers are lists of
  bytes, JavaScript strings are \<open>string\<close>, a path is the list of its segments
  (\<^verbatim>\<open>path.join(a, b, c)\<close> appends the segments \<open>b\<close> and \<open>c\<close> to \<open>a\<close>), sizes and
  times are the integers the JavaScript numbers hold (times in milliseconds), and every
  rejected promise or thrown \<^verbatim>\<open>Error\<close> is an \<open>Inl\<close> result.
\<close>

subsection \<open>File names and paths\<close>

type_synonym byte = "8 word"
type_synonym buffer = "byte list"
type_synonym path = "string list"

definition hex_digit :: "nat \<Rightarrow> char" where
  "hex_digit n = ''0123456789abcdef'' ! (n mod 16)"

definition hex_byte :: "byte \<Rightarrow> string" where
  "hex_byte b = [hex_digit (unat b div 16), hex_digit (unat b mod 16)]"

text \<open>\<^verbatim>\<open>buf.toString('hex')\<close>: two lower-case digits for each byte.\<close>

definition hex :: "buffer \<Rightarrow> string" where
  "hex bs = concat (map hex_byte bs)"

text \<open>
  Modelled from the spec: \<^verbatim>\<open>helpers.GUIDBufferToString\<close> lives in lib/helpers, which is
  not among the sources at hand; the specification gives the file name as
  \<^verbatim>\<open>hex(entryId)-hex(contentHash).ext\<close>, so the helper is the hexadecimal rendering of
  the buffer.
\<close>

definition GUIDBufferToString :: "buffer \<Rightarrow> string" where
  "GUIDBufferToString guid = hex guid"

text \<open>
  The object literal \<^verbatim>\<open>{ 'i': 'info', 'a': 'bin', 'r': 'resource' }[type]\<close>: any other
  key reads \<^verbatim>\<open>undefined\<close> (keys inherited from \<^verbatim>\<open>Object.prototype\<close> are left out), and
  the template literal prints that as the text \<^verbatim>\<open>undefined\<close>.
\<close>

definition ext_of :: "string \<Rightarrow> string option" where
  "ext_of type =
     (if type = ''i'' then Some ''info''
      else if type = ''a'' then Some ''bin''
      else if type = ''r'' then Some ''resource''
      else None)"

definition template_string :: "string option \<Rightarrow> string" where
  "template_string v = (case v of None \<Rightarrow> ''undefined'' | Some s \<Rightarrow> s)"

definition calcFilename :: "string \<Rightarrow> buffer \<Rightarrow> buffer \<Rightarrow> string" where
  "calcFilename type guid hash =
     GUIDBufferToString guid @ ''-'' @ hex hash @ ''.'' @ template_string (ext_of type)"

definition calcFilepath :: "path \<Rightarrow> string \<Rightarrow> buffer \<Rightarrow> buffer \<Rightarrow> path" where
  "calcFilepath cachePath type guid hash =
     (let fileName = calcFilename type guid hash
      in cachePath @ [take 2 fileName, fileName])"

definition recognized :: "string \<Rightarrow> bool" where
  "recognized type \<longleftrightarrow> type = ''a'' \<or> type = ''i'' \<or> type = ''r''"

subsection \<open>Errors and JavaScript values\<close>

text \<open>
  The source raises plain \<^verbatim>\<open>Error\<close> objects; they are told apart here by where they are
  raised. \<open>InvalidArgument InvalidSize\<close> is "Invalid size for write stream",
  \<open>InvalidArgument UnrecognizedType\<close> is "Unrecognized type ... for transaction.",
  \<open>InvalidArgument InvalidExpireTimeSpan\<close> is "Invalid expireTimeSpan option",
  \<open>SizeMismatch\<close> is "Transaction failed; file size mismatch", and \<open>IOFault\<close> is an error
  raised by the file system module.
\<close>

datatype errno = ENOENT | EACCES

datatype argument_error = InvalidSize | UnrecognizedType | InvalidExpireTimeSpan

datatype error = InvalidArgument argument_error | SizeMismatch | IOFault errno

text \<open>
  The values the \<^verbatim>\<open>size\<close> argument of \<^verbatim>\<open>getWriteStream\<close> can hold: a number (a finite
  double is a real number; NaN and the infinities apart) or something that is not a number.
\<close>

datatype js_value =
  JNumber real | JNaN | JPosInfinity | JNegInfinity | JString string | JUndefined

text \<open>\<^verbatim>\<open>typeof(v) === 'number'\<close>\<close>

fun is_number :: "js_value \<Rightarrow> bool" where
  "is_number (JString _) = False"
| "is_number JUndefined = False"
| "is_number _ = True"

text \<open>\<^verbatim>\<open>v <= 0\<close> on a number: every comparison with NaN is false.\<close>

fun le_zero :: "js_value \<Rightarrow> bool" where
  "le_zero (JNumber q) = (q \<le> 0)"
| "le_zero JNegInfinity = True"
| "le_zero _ = False"

text \<open>\<^verbatim>\<open>n === v\<close> for a byte count \<open>n\<close>.\<close>

definition strict_eq :: "nat \<Rightarrow> js_value \<Rightarrow> bool" where
  "strict_eq n v \<longleftrightarrow> v = JNumber (of_nat n)"

subsection \<open>The file system\<close>

text \<open>
  What the code asks of \<^verbatim>\<open>fs-extra\<close>. The entries are listed in the order a directory
  walk meets them; a directory exists when an entry lies at or below it. \<open>denied\<close> holds
  the paths on which the operating system refuses a change.
\<close>

record stats =
  isDirectory :: bool
  st_size :: int
  atime :: int

record filesystem =
  entries :: "(path \<times> stats) list"
  denied :: "path set"


definition fs_unlink :: "filesystem \<Rightarrow> path \<Rightarrow> error + filesystem" where
  "fs_unlink fs p =
     (if map_of (entries fs) p = None then Inl (IOFault ENOENT)
      else if p \<in> denied fs then Inl (IOFault EACCES)
      else Inr (fs\<lparr>entries := AList.delete p (entries fs)\<rparr>))"


text \<open>\<^verbatim>\<open>fs.ensureFile(p)\<close> at time \<open>now\<close>: an existing file is left as it is.\<close>

definition fs_ensureFile :: "int \<Rightarrow> filesystem \<Rightarrow> path \<Rightarrow> error + filesystem" where
  "fs_ensureFile now fs p =
     (if map_of (entries fs) p \<noteq> None then Inr fs
      else if p \<in> denied fs then Inl (IOFault EACCES)
      else Inr (fs\<lparr>entries := entries fs @ [(p, \<lparr>isDirectory = False, st_size = 0, atime = now\<rparr>)]\<rparr>))"

text \<open>
  \<^verbatim>\<open>fs.createWriteStream(p, { flags: 'w' })\<close> once the stream is open: the file has
  length zero.
\<close>

definition fs_openForWrite :: "filesystem \<Rightarrow> path \<Rightarrow> filesystem" where
  "fs_openForWrite fs p =
     fs\<lparr>entries := map (\<lambda>(q, st). if q = p then (q, st\<lparr>st_size := 0\<rparr>) else (q, st)) (entries fs)\<rparr>"

subsection \<open>PutTransactionFS\<close>

text \<open>
  A write stream is known to the transaction by its byte count and its closed flag. A
  stream that is still open is ended by its writer; \<open>bytesWritten\<close> is then the count it
  holds when its close event fires.
\<close>

record write_stream =
  bytesWritten :: nat
  stream_closed :: bool

record stream_entry =
  s_file :: path
  s_type :: string
  s_size :: js_value
  s_stream :: write_stream

record file_entry =
  f_file :: path
  f_type :: string
  f_size :: js_value

text \<open>
  \<open>streams\<close> is the object \<^verbatim>\<open>this._streams\<close>: its keys keep the order in which they were
  first assigned, and assigning to a key that is there replaces its value in place.
\<close>

record transaction =
  guid :: buffer
  hash :: buffer
  cachePath :: path
  streams :: "(string \<times> stream_entry) list"
  files :: "file_entry list"

text \<open>\<^verbatim>\<open>new PutTransactionFS(guid, hash, cachePath)\<close>\<close>

definition createPutTransaction :: "path \<Rightarrow> buffer \<Rightarrow> buffer \<Rightarrow> transaction" where
  "createPutTransaction base g h =
     \<lparr>guid = g, hash = h, cachePath = base, streams = [], files = []\<rparr>"

text \<open>
  \<^verbatim>\<open>getWriteStream(type, size)\<close>. \<open>u\<close> is the name \<^verbatim>\<open>uuid()\<close> returns and \<open>now\<close> the time of
  the call. The result comes with the file system and the transaction as the call leaves
  them, once the stream is open.
\<close>

definition getWriteStream ::
  "string \<Rightarrow> int \<Rightarrow> string \<Rightarrow> js_value \<Rightarrow> filesystem \<times> transaction
     \<Rightarrow> (error + write_stream) \<times> (filesystem \<times> transaction)" where
  "getWriteStream u now type size' = (\<lambda>(fs, t).
     let file = cachePath t @ [u] in
     if \<not> is_number size' \<or> le_zero size' then (Inl (InvalidArgument InvalidSize), (fs, t))
     else if type \<noteq> ''a'' \<and> type \<noteq> ''i'' \<and> type \<noteq> ''r''
       then (Inl (InvalidArgument UnrecognizedType), (fs, t))
     else (case fs_ensureFile now fs file of
         Inl e \<Rightarrow> (Inl e, (fs, t))
       | Inr fs' \<Rightarrow>
           let stream = \<lparr>bytesWritten = 0, stream_closed = False\<rparr> in
           (Inr stream,
            (fs_openForWrite fs' file, t\<lparr>streams := AList.update type
                 \<lparr>s_file = file, s_type = type, s_size = size', s_stream = stream\<rparr>
                 (streams t)\<rparr>))))"

text \<open>The inner function \<^verbatim>\<open>processClosedStream\<close> of \<^verbatim>\<open>_closeAllStreams\<close>.\<close>

definition processClosedStream :: "stream_entry \<Rightarrow> file_entry list \<Rightarrow> error + file_entry list" where
  "processClosedStream s fl =
     (if strict_eq (bytesWritten (s_stream s)) (s_size s)
      then Inr (fl @ [\<lparr>f_file = s_file s, f_type = s_type s, f_size = s_size s\<rparr>])
      else Inl SizeMismatch)"

text \<open>
  The stream objects belong to their writers, and the record of a stream shows it as the
  transaction last saw it. For a stream that is still open when \<^verbatim>\<open>_closeAllStreams\<close>
  reaches it, \<open>ends\<close> tells what its writer does: \<open>ends file = Some n\<close> when the stream that
  writes to \<open>file\<close> is ended and closes with \<open>n\<close> bytes written in all, and \<open>None\<close> when it is
  never ended, so that its close event never fires.
\<close>

type_synonym writers = "path \<Rightarrow> nat option"

text \<open>
  Waiting for the close event of a stream that is still open: the stream as the event
  handler finds it, or nothing when the event never fires.
\<close>

definition awaitClose :: "writers \<Rightarrow> stream_entry \<Rightarrow> stream_entry option" where
  "awaitClose ends s = (case ends (s_file s) of
       None \<Rightarrow> None
     | Some n \<Rightarrow> Some (s\<lparr>s_stream := \<lparr>bytesWritten = n, stream_closed = True\<rparr>\<rparr>))"

text \<open>
  The loop of \<^verbatim>\<open>_closeAllStreams\<close> over the values of \<^verbatim>\<open>this._streams\<close>: the outcome, the
  streams as the loop leaves them and the files list, or \<open>None\<close> when the loop waits for
  ever.
\<close>

fun closeStreams :: "writers \<Rightarrow> (string \<times> stream_entry) list \<Rightarrow> file_entry list
    \<Rightarrow> ((error + unit) \<times> (string \<times> stream_entry) list \<times> file_entry list) option" where
  "closeStreams ends [] fl = Some (Inr (), [], fl)"
| "closeStreams ends ((k, s) # rest) fl =
     (if stream_closed (s_stream s)
      then (case processClosedStream s fl of
          Inl e \<Rightarrow> Some (Inl e, (k, s) # rest, fl)
        | Inr fl' \<Rightarrow> (case closeStreams ends rest fl' of
              None \<Rightarrow> None
            | Some (r, rest', fl'') \<Rightarrow> Some (r, (k, s) # rest', fl'')))
      else (case awaitClose ends s of
          None \<Rightarrow> None
        | Some s' \<Rightarrow> (case processClosedStream s' fl of
              Inl e \<Rightarrow> Some (Inl e, (k, s') # rest, fl)
            | Inr fl' \<Rightarrow> (case closeStreams ends rest fl' of
                  None \<Rightarrow> None
                | Some (r, rest', fl'') \<Rightarrow> Some (r, (k, s') # rest', fl'')))))"

definition closeAllStreams :: "writers \<Rightarrow> transaction \<Rightarrow> ((error + unit) \<times> transaction) option" where
  "closeAllStreams ends t =
     (let files' = map snd (streams t) in
      if length files' = 0 then Some (Inr (), t)
      else (case closeStreams ends (streams t) (files t) of
          None \<Rightarrow> None
        | Some (r, ss, fl) \<Rightarrow> Some (r, t\<lparr>streams := ss, files := fl\<rparr>)))"

text \<open>\<^verbatim>\<open>get manifest()\<close>\<close>

definition manifest :: "transaction \<Rightarrow> string list" where
  "manifest t = map f_type (files t)"

text \<open>
  Modelled from the spec: \<^verbatim>\<open>PutTransaction.finalize\<close> of the base class lives in
  lib/cache/cache\_base, which is not among the sources at hand; the specification gives
  finalize no effect beyond closing and checking the streams, so the base method returns
  with the transaction as it is.
\<close>

definition super_finalize :: "transaction \<Rightarrow> (error + unit) \<times> transaction" where
  "super_finalize t = (Inr (), t)"

text \<open>\<^verbatim>\<open>finalize()\<close>: \<open>None\<close> when the call never returns.\<close>

definition finalize :: "writers \<Rightarrow> transaction \<Rightarrow> ((error + unit) \<times> transaction) option" where
  "finalize ends t = (case closeAllStreams ends t of
       None \<Rightarrow> None
     | Some (Inl e, t') \<Rightarrow> Some (Inl e, t')
     | Some (Inr _, t') \<Rightarrow> Some (super_finalize t'))"

subsection \<open>CacheFS: reading and committing\<close>







subsection \<open>CacheFS: cleanup\<close>

text \<open>
  \<open>duration\<close> is what \<^verbatim>\<open>moment.duration(expireTimeSpan)\<close> returns, read through \<^verbatim>\<open>isValid()\<close>
  and \<^verbatim>\<open>asMilliseconds()\<close>; an option that is missing gives the valid duration of zero
  milliseconds. \<^verbatim>\<open>moment().subtract(d)\<close> is the time of the call less the milliseconds of
  \<open>d\<close>. A \<open>maxCacheSize\<close> that is not set compares like \<open>0\<close>.
\<close>

record duration =
  isValid :: bool
  asMilliseconds :: int

record cleanupOptions =
  expireTimeSpan :: duration
  maxCacheSize :: int

text \<open>An item of the directory walk, \<^verbatim>\<open>{ path, stats }\<close>.\<close>

record item =
  item_path :: path
  item_stats :: stats

text \<open>\<open>Progress cacheCount cacheSize deleteCount deleteSize\<close>\<close>

datatype progress = Progress nat int nat int

datatype event =
  cleanup_search_progress progress
| cleanup_search_finish progress
| cleanup_delete_item path
| cleanup_delete_finish progress

text \<open>The variables the closures of \<^verbatim>\<open>cleanup\<close> share, and the events emitted so far.\<close>

record scan =
  allItems :: "item list"
  deleteItems :: "path list"
  cacheSize :: int
  deleteSize :: int
  emitted :: "event list"

definition scan_start :: scan where
  "scan_start = \<lparr>allItems = [], deleteItems = [], cacheSize = 0, deleteSize = 0, emitted = []\<rparr>"

definition progressData :: "scan \<Rightarrow> progress" where
  "progressData st =
     Progress (length (allItems st)) (cacheSize st) (length (deleteItems st)) (deleteSize st)"

definition emit :: "event \<Rightarrow> scan \<Rightarrow> scan" where
  "emit ev st = st\<lparr>emitted := emitted st @ [ev]\<rparr>"

text \<open>
  \<^verbatim>\<open>klaw(self._cachePath)\<close>: every entry at or below the directory, in the order of the
  walk; the walk fails when nothing is there.
\<close>

definition klaw :: "filesystem \<Rightarrow> path \<Rightarrow> error + item list" where
  "klaw fs dir =
     (let found = filter (\<lambda>(p, st). prefix dir p) (entries fs) in
      if found = [] then Inl (IOFault ENOENT)
      else Inr (map (\<lambda>(p, st). \<lparr>item_path = p, item_stats = st\<rparr>) found))"

text \<open>
  One step of \<^verbatim>\<open>filterTransform\<close>, with the \<^verbatim>\<open>'data'\<close> handler that receives what the
  transform pushes (\<^verbatim>\<open>deleteItems.push(item.path)\<close>).
\<close>

definition filterTransform :: "int \<Rightarrow> item \<Rightarrow> scan \<Rightarrow> scan" where
  "filterTransform minFileAccessTime item st =
     (if isDirectory (item_stats item) then st
      else
        let st1 = st\<lparr>allItems := allItems st @ [item],
                     cacheSize := cacheSize st + st_size (item_stats item)\<rparr>;
            st2 = (if atime (item_stats item) < minFileAccessTime
                   then st1\<lparr>deleteSize := deleteSize st1 + st_size (item_stats item),
                            deleteItems := deleteItems st1 @ [item_path item]\<rparr>
                   else st1)
        in emit (cleanup_search_progress (progressData st2)) st2)"

definition walk :: "int \<Rightarrow> item list \<Rightarrow> scan" where
  "walk minFileAccessTime items =
     foldl (\<lambda>st item. filterTransform minFileAccessTime item st) scan_start items"

text \<open>The \<^verbatim>\<open>for\<close> loop of \<^verbatim>\<open>finalize\<close> over \<^verbatim>\<open>allItems\<close>, with its \<^verbatim>\<open>break\<close>.\<close>

fun evict :: "int \<Rightarrow> item list \<Rightarrow> scan \<Rightarrow> scan" where
  "evict maxSize [] st = st"
| "evict maxSize (item # rest) st =
     (let st1 = emit (cleanup_search_progress (progressData st)) st;
          st2 = st1\<lparr>deleteSize := deleteSize st1 + st_size (item_stats item),
                   deleteItems := deleteItems st1 @ [item_path item]\<rparr>
      in if cacheSize st2 - deleteSize st2 \<le> maxSize then st2 else evict maxSize rest st2)"

text \<open>
  \<^verbatim>\<open>Array.prototype.sort\<close> belongs to the engine and is a parameter \<open>srt\<close>: it takes the
  comparator and the array. The comparator of the source, \<^verbatim>\<open>a.stats.atime > b.stats.atime\<close>,
  answers with a boolean.
\<close>

type_synonym sort_engine = "(item \<Rightarrow> item \<Rightarrow> bool) \<Rightarrow> item list \<Rightarrow> item list"

definition sizePass :: "sort_engine \<Rightarrow> int \<Rightarrow> scan \<Rightarrow> scan" where
  "sizePass srt maxSize st =
     (if maxSize > 0 \<and> cacheSize st - deleteSize st > maxSize
      then
        let st' = st\<lparr>allItems :=
              srt (\<lambda>a b. atime (item_stats a) > atime (item_stats b)) (allItems st)\<rparr>
        in evict maxSize (allItems st') st'
      else st)"

text \<open>
  An engine that sorts by insertion: each element moves left past the elements for which
  the comparator, called with that element first, answers with a positive number (here
  \<^verbatim>\<open>true\<close>). \<open>place\<close> works on the part already sorted, last element first.
\<close>

fun place :: "('a \<Rightarrow> 'a \<Rightarrow> bool) \<Rightarrow> 'a \<Rightarrow> 'a list \<Rightarrow> 'a list" where
  "place cmp x [] = [x]"
| "place cmp x (y # ys) = (if cmp y x then y # place cmp x ys else x # y # ys)"

definition insertion_sort :: "('a \<Rightarrow> 'a \<Rightarrow> bool) \<Rightarrow> 'a list \<Rightarrow> 'a list" where
  "insertion_sort cmp xs = rev (foldl (\<lambda>acc x. place cmp x acc) [] xs)"

text \<open>The deletion loop of \<^verbatim>\<open>finalize\<close>: a failing \<^verbatim>\<open>unlink\<close> is not caught.\<close>

fun unlinkItems :: "path list \<Rightarrow> filesystem \<times> scan \<Rightarrow> (error + unit) \<times> (filesystem \<times> scan)" where
  "unlinkItems [] (fs, st) = (Inr (), (fs, st))"
| "unlinkItems (p # ps) (fs, st) =
     (let st1 = emit (cleanup_delete_item p) st in
      case fs_unlink fs p of
        Inl e \<Rightarrow> (Inl e, (fs, st1))
      | Inr fs' \<Rightarrow> unlinkItems ps (fs', st1))"

text \<open>The inner function \<^verbatim>\<open>finalize\<close> of \<^verbatim>\<open>cleanup\<close>.\<close>

definition cleanup_finalize ::
  "sort_engine \<Rightarrow> int \<Rightarrow> bool \<Rightarrow> filesystem \<times> scan \<Rightarrow> (error + unit) \<times> (filesystem \<times> scan)" where
  "cleanup_finalize srt maxSize dryRun = (\<lambda>(fs, st).
     let st1 = sizePass srt maxSize st;
         st2 = emit (cleanup_search_finish (progressData st1)) st1
     in case (if \<not> dryRun then unlinkItems (deleteItems st2) (fs, st2) else (Inr (), (fs, st2))) of
          (Inl e, w) \<Rightarrow> (Inl e, w)
        | (Inr _, (fs', st3)) \<Rightarrow>
            (Inr (), (fs', emit (cleanup_delete_finish (progressData st3)) st3)))"

text \<open>
  \<^verbatim>\<open>cleanup(dryRun)\<close> at time \<open>now\<close> on the store at \<open>base\<close>: the outcome of the promise,
  the events emitted, and the file system as the call leaves it.
\<close>

definition cleanup ::
  "sort_engine \<Rightarrow> cleanupOptions \<Rightarrow> bool \<Rightarrow> int \<Rightarrow> path \<Rightarrow> filesystem
     \<Rightarrow> (error + unit) \<times> event list \<times> filesystem" where
  "cleanup srt opts dryRun now base fs =
     (let expireDuration = expireTimeSpan opts in
      if \<not> isValid expireDuration \<or> asMilliseconds expireDuration = 0
      then (Inl (InvalidArgument InvalidExpireTimeSpan), [], fs)
      else
        let minFileAccessTime = now - asMilliseconds expireDuration in
        case klaw fs base of
          Inl err \<Rightarrow> (Inl err, [], fs)
        | Inr items \<Rightarrow>
            (case cleanup_finalize srt (maxCacheSize opts) dryRun
                    (fs, walk minFileAccessTime items) of
               (r, (fs', st)) \<Rightarrow> (r, emitted st, fs')))"

text \<open>The paths a cleanup marks: \<^verbatim>\<open>deleteItems\<close> when the search has finished.\<close>

definition marked :: "sort_engine \<Rightarrow> cleanupOptions \<Rightarrow> int \<Rightarrow> item list \<Rightarrow> path list" where
  "marked srt opts now items =
     deleteItems (sizePass srt (maxCacheSize opts)
        (walk (now - asMilliseconds (expireTimeSpan opts)) items))"

subsection \<open>The claims in the words of the specification, and sample states\<close>

text \<open>"declaredSize is a positive integer"\<close>

definition positive_integer :: "js_value \<Rightarrow> bool" where
  "positive_integer v = (case v of JNumber q \<Rightarrow> 0 < q \<and> of_int \<lfloor>q\<rfloor> = q | _ \<Rightarrow> False)"

text \<open>
  The three cases in which the specification has \<^verbatim>\<open>openWriteStream\<close> fail: the declared
  size is not a positive integer, the kind is not recognized, or a stream for the kind
  was already opened on the transaction.
\<close>

definition spec_getWriteStream_fails :: "transaction \<Rightarrow> string \<Rightarrow> js_value \<Rightarrow> bool" where
  "spec_getWriteStream_fails t type size' \<longleftrightarrow>
     \<not> positive_integer size' \<or> \<not> recognized type \<or> type \<in> fst ` set (streams t)"

text \<open>
  The byte count \<^verbatim>\<open>processClosedStream\<close> reads from a recorded stream: the count of a
  stream that is closed, the count its writer ends it with otherwise.
\<close>

definition final_count :: "writers \<Rightarrow> stream_entry \<Rightarrow> nat option" where
  "final_count ends s =
     (if stream_closed (s_stream s) then Some (bytesWritten (s_stream s)) else ends (s_file s))"

text \<open>"The stream's actual bytes written differ from its declared size."\<close>

definition size_mismatch :: "writers \<Rightarrow> stream_entry \<Rightarrow> bool" where
  "size_mismatch ends s =
     (case final_count ends s of None \<Rightarrow> False | Some n \<Rightarrow> \<not> strict_eq n (s_size s))"

text \<open>The stream closes with the bytes it declared.\<close>

definition size_ok :: "writers \<Rightarrow> stream_entry \<Rightarrow> bool" where
  "size_ok ends s =
     (case final_count ends s of None \<Rightarrow> False | Some n \<Rightarrow> strict_eq n (s_size s))"

text \<open>The entry a verified stream adds to \<^verbatim>\<open>files\<close>.\<close>

definition verified :: "stream_entry \<Rightarrow> file_entry" where
  "verified s = \<lparr>f_file = s_file s, f_type = s_type s, f_size = s_size s\<rparr>"

text \<open>
  An empty store at \<^verbatim>\<open>cache\<close> with a fresh transaction, and the two after
  \<^verbatim>\<open>getWriteStream('i', 5)\<close> at time 7 with the name \<^verbatim>\<open>u1\<close>.
\<close>

definition store0 :: filesystem where
  "store0 = \<lparr>entries = [([''cache''], \<lparr>isDirectory = True, st_size = 0, atime = 0\<rparr>)], denied = {}\<rparr>"

definition txn0 :: transaction where
  "txn0 = createPutTransaction [''cache''] [0x1f, 0xa0] [0x05]"

definition store1 :: filesystem where
  "store1 = \<lparr>entries = [([''cache''], \<lparr>isDirectory = True, st_size = 0, atime = 0\<rparr>),
       ([''cache'', ''u1''], \<lparr>isDirectory = False, st_size = 0, atime = 7\<rparr>)], denied = {}\<rparr>"

definition txn1 :: transaction where
  "txn1 = txn0\<lparr>streams := [(''i'', \<lparr>s_file = [''cache'', ''u1''], s_type = ''i'',
       s_size = JNumber 5, s_stream = \<lparr>bytesWritten = 0, stream_closed = False\<rparr>\<rparr>)]\<rparr>"

subsection \<open>Notions used to state the properties\<close>

text \<open>A file whose last access is older than the given time.\<close>

definition expired :: "int \<Rightarrow> item \<Rightarrow> bool" where
  "expired minFileAccessTime i \<longleftrightarrow>
     \<not> isDirectory (item_stats i) \<and> atime (item_stats i) < minFileAccessTime"

text \<open>The progress events of the search.\<close>

fun search_event :: "event \<Rightarrow> bool" where
  "search_event (cleanup_search_progress _) = True"
| "search_event _ = False"


text \<open>
  A recorded stream as \<^verbatim>\<open>_closeAllStreams\<close> leaves it once it has gone past it: closed,
  with the count its writer ended it with.
\<close>

definition seen :: "writers \<Rightarrow> stream_entry \<Rightarrow> stream_entry" where
  "seen ends s =
     (if stream_closed (s_stream s) then s
      else (case awaitClose ends s of None \<Rightarrow> s | Some s' \<Rightarrow> s'))"

subsection \<open>Sample stores\<close>

text \<open>
  At time 200000000 the file \<^verbatim>\<open>old\<close> was last read two days ago and the file \<^verbatim>\<open>new\<close> ten
  minutes ago; files expire after a day and there is no size limit.
\<close>

definition store_age :: filesystem where
  "store_age = \<lparr>entries =
     [([''cache''], \<lparr>isDirectory = True, st_size = 0, atime = 0\<rparr>),
      ([''cache'', ''1f'', ''old''], \<lparr>isDirectory = False, st_size = 100, atime = 27200000\<rparr>),
      ([''cache'', ''2e'', ''new''], \<lparr>isDirectory = False, st_size = 40, atime = 199400000\<rparr>)],
     denied = {}\<rparr>"

definition opts_day :: cleanupOptions where
  "opts_day = \<lparr>expireTimeSpan = \<lparr>isValid = True, asMilliseconds = 86400000\<rparr>, maxCacheSize = 0\<rparr>"

text \<open>Three old files, the second of which the operating system will not let go.\<close>

definition store_locked :: filesystem where
  "store_locked = \<lparr>entries =
     [([''cache''], \<lparr>isDirectory = True, st_size = 0, atime = 0\<rparr>),
      ([''cache'', ''1f'', ''A''], \<lparr>isDirectory = False, st_size = 10, atime = 1\<rparr>),
      ([''cache'', ''2e'', ''B''], \<lparr>isDirectory = False, st_size = 10, atime = 2\<rparr>),
      ([''cache'', ''3d'', ''C''], \<lparr>isDirectory = False, st_size = 10, atime = 3\<rparr>)],
     denied = {[''cache'', ''2e'', ''B'']}\<rparr>"

definition items_locked :: "item list" where
  "items_locked =
     [\<lparr>item_path = [''cache''], item_stats = \<lparr>isDirectory = True, st_size = 0, atime = 0\<rparr>\<rparr>,
      \<lparr>item_path = [''cache'', ''1f'', ''A''], item_stats = \<lparr>isDirectory = False, st_size = 10, atime = 1\<rparr>\<rparr>,
      \<lparr>item_path = [''cache'', ''2e'', ''B''], item_stats = \<lparr>isDirectory = False, st_size = 10, atime = 2\<rparr>\<rparr>,
      \<lparr>item_path = [''cache'', ''3d'', ''C''], item_stats = \<lparr>isDirectory = False, st_size = 10, atime = 3\<rparr>\<rparr>]"


text \<open>
  Three files of 10 bytes, last read at 1, 60 and 70, met by the walk in that order; at
  time 100 with an expiry of 50 the first has expired, and the size limit is 15.
\<close>

definition store_budget :: filesystem where
  "store_budget = \<lparr>entries =
     [([''cache''], \<lparr>isDirectory = True, st_size = 0, atime = 0\<rparr>),
      ([''cache'', ''1f'', ''A''], \<lparr>isDirectory = False, st_size = 10, atime = 1\<rparr>),
      ([''cache'', ''2e'', ''B''], \<lparr>isDirectory = False, st_size = 10, atime = 60\<rparr>),
      ([''cache'', ''3d'', ''C''], \<lparr>isDirectory = False, st_size = 10, atime = 70\<rparr>)],
     denied = {}\<rparr>"

definition opts_budget :: cleanupOptions where
  "opts_budget = \<lparr>expireTimeSpan = \<lparr>isValid = True, asMilliseconds = 50\<rparr>, maxCacheSize = 15\<rparr>"

definition items_budget :: "item list" where
  "items_budget =
     [\<lparr>item_path = [''cache''], item_stats = \<lparr>isDirectory = True, st_size = 0, atime = 0\<rparr>\<rparr>,
      \<lparr>item_path = [''cache'', ''1f'', ''A''], item_stats = \<lparr>isDirectory = False, st_size = 10, atime = 1\<rparr>\<rparr>,
      \<lparr>item_path = [''cache'', ''2e'', ''B''], item_stats = \<lparr>isDirectory = False, st_size = 10, atime = 60\<rparr>\<rparr>,
      \<lparr>item_path = [''cache'', ''3d'', ''C''], item_stats = \<lparr>isDirectory = False, st_size = 10, atime = 70\<rparr>\<rparr>]"

subsection \<open>Sample transactions\<close>

text \<open>
  The info stream has closed with its 5 bytes; the data stream declared 9 bytes, is
  still open, and its writer ends it after 4.
\<close>

definition ends_short :: writers where
  "ends_short p = (if p = [''cache'', ''u2''] then Some 4 else None)"

definition txn_short :: transaction where
  "txn_short = txn0\<lparr>streams :=
     [(''i'', \<lparr>s_file = [''cache'', ''u1''], s_type = ''i'', s_size = JNumber 5,
              s_stream = \<lparr>bytesWritten = 5, stream_closed = True\<rparr>\<rparr>),
      (''a'', \<lparr>s_file = [''cache'', ''u2''], s_type = ''a'', s_size = JNumber 9,
              s_stream = \<lparr>bytesWritten = 0, stream_closed = False\<rparr>\<rparr>)]\<rparr>"

text \<open>
  No writer ever ends a stream; the info stream is still open, and the data stream has
  closed with 4 bytes of the 9 it declared.
\<close>

definition ends_never :: writers where
  "ends_never p = None"

definition txn_stuck :: transaction where
  "txn_stuck = txn0\<lparr>streams :=
     [(''i'', \<lparr>s_file = [''cache'', ''u1''], s_type = ''i'', s_size = JNumber 5,
              s_stream = \<lparr>bytesWritten = 0, stream_closed = False\<rparr>\<rparr>),
      (''a'', \<lparr>s_file = [''cache'', ''u2''], s_type = ''a'', s_size = JNumber 9,
              s_stream = \<lparr>bytesWritten = 4, stream_closed = True\<rparr>\<rparr>)]\<rparr>"

text \<open>
  The store and the transaction after a second \<^verbatim>\<open>getWriteStream('i', 9)\<close> at time 8 with
  the name \<^verbatim>\<open>u2\<close>, on the transaction that had an info stream of 5 bytes open. The writer
  of the first stream ends it with no byte written, the writer of the second after 9.
\<close>

definition store2 :: filesystem where
  "store2 = \<lparr>entries = [([''cache''], \<lparr>isDirectory = True, st_size = 0, atime = 0\<rparr>),
       ([''cache'', ''u1''], \<lparr>isDirectory = False, st_size = 0, atime = 7\<rparr>),
       ([''cache'', ''u2''], \<lparr>isDirectory = False, st_size = 0, atime = 8\<rparr>)], denied = {}\<rparr>"

definition txn_reopened :: transaction where
  "txn_reopened = txn0\<lparr>streams := [(''i'', \<lparr>s_file = [''cache'', ''u2''], s_type = ''i'',
       s_size = JNumber 9, s_stream = \<lparr>bytesWritten = 0, stream_closed = False\<rparr>\<rparr>)]\<rparr>"

definition ends_reopened :: writers where
  "ends_reopened p =
     (if p = [''cache'', ''u1''] then Some 0 else if p = [''cache'', ''u2''] then Some 9 else None)"





section \<open>Properties\<close>

subsection \<open>Hexadecimal rendering\<close>

lemma hex_digit_inj:
  assumes "m < 16" "n < 16" "hex_digit m = hex_digit n"
  shows "m = n"
proof -
  have m: "m \<in> set [0..<16]" and n: "n \<in> set [0..<16]"
    using assms(1,2) by simp_all
  have "\<forall>i \<in> set [0..<16]. \<forall>j \<in> set [0..<16]. hex_digit i = hex_digit j \<longrightarrow> i = j"
    unfolding hex_digit_def by code_simp
  with m n assms(3) show ?thesis by blast
qed

lemma hex_digit_plain: "hex_digit n \<noteq> CHR ''-'' \<and> hex_digit n \<noteq> CHR ''.''"
proof -
  have "n mod 16 \<in> set [0..<16]" by simp
  moreover have "\<forall>i \<in> set [0..<16]. hex_digit i \<noteq> CHR ''-'' \<and> hex_digit i \<noteq> CHR ''.''"
    unfolding hex_digit_def by code_simp
  moreover have "hex_digit n = hex_digit (n mod 16)"
    by (simp add: hex_digit_def)
  ultimately show ?thesis by metis
qed

lemma hex_byte_inj:
  assumes "hex_byte a = hex_byte b"
  shows "a = b"
proof -
  have "unat a < 2 ^ LENGTH(8)" and "unat b < 2 ^ LENGTH(8)"
    by (rule unsigned_less)+
  then have lt: "unat a div 16 < 16" "unat b div 16 < 16"
    by simp_all
  from assms have "hex_digit (unat a div 16) = hex_digit (unat b div 16)"
    and "hex_digit (unat a mod 16) = hex_digit (unat b mod 16)"
    by (simp_all add: hex_byte_def)
  then have "unat a div 16 = unat b div 16" and "unat a mod 16 = unat b mod 16"
    using lt by (auto intro: hex_digit_inj)
  then have "unat a = unat b"
    by (metis div_mult_mod_eq)
  then show ?thesis by (rule word_unat_eq_iff [THEN iffD2])
qed

lemma hex_inj: "hex xs = hex ys \<Longrightarrow> xs = ys"
proof (induction xs arbitrary: ys)
  case Nil
  then show ?case by (cases ys) (simp_all add: hex_def hex_byte_def)
next
  case (Cons x xs)
  then obtain y ys' where ys: "ys = y # ys'"
    by (cases ys) (simp_all add: hex_def hex_byte_def)
  from Cons.prems have "hex_byte x @ hex xs = hex_byte y @ hex ys'"
    by (simp add: hex_def ys)
  moreover have "length (hex_byte x) = length (hex_byte y)"
    by (simp add: hex_byte_def)
  ultimately have "hex_byte x = hex_byte y" and "hex xs = hex ys'"
    by simp_all
  then show ?case
    using Cons.IH hex_byte_inj ys by blast
qed

lemma hex_byte_plain: "CHR ''-'' \<notin> set (hex_byte b) \<and> CHR ''.'' \<notin> set (hex_byte b)"
  using hex_digit_plain [of "unat b div 16"] hex_digit_plain [of "unat b mod 16"]
  by (auto simp: hex_byte_def)

lemma hex_plain: "CHR ''-'' \<notin> set (hex bs) \<and> CHR ''.'' \<notin> set (hex bs)"
  using hex_byte_plain by (auto simp: hex_def)

lemma split_at_mark:
  assumes "xs @ c # ys = xs' @ c # ys'" "c \<notin> set xs" "c \<notin> set xs'"
  shows "xs = xs' \<and> ys = ys'"
  using assms
proof (induction xs arbitrary: xs')
  case Nil
  then show ?case by (cases xs') auto
next
  case (Cons x xs)
  then show ?case by (cases xs') auto
qed

lemma ext_of_inj:
  assumes "recognized s" "recognized t" "ext_of s = ext_of t"
  shows "s = t"
  using assms by (auto simp: recognized_def ext_of_def split: if_splits)

lemma calcFilename_inj:
  assumes "recognized s" "recognized t"
    and "calcFilename s g h = calcFilename t g' h'"
  shows "s = t \<and> g = g' \<and> h = h'"
proof -
  let ?e = "template_string (ext_of s)" and ?e' = "template_string (ext_of t)"
  from assms(3) have eq: "hex g @ CHR ''-'' # (hex h @ CHR ''.'' # ?e)
      = hex g' @ CHR ''-'' # (hex h' @ CHR ''.'' # ?e')"
    by (simp add: calcFilename_def GUIDBufferToString_def)
  have g: "hex g = hex g'" and rest: "hex h @ CHR ''.'' # ?e = hex h' @ CHR ''.'' # ?e'"
    using split_at_mark [OF eq] hex_plain by blast+
  have h: "hex h = hex h'" and e: "?e = ?e'"
    using split_at_mark [OF rest] hex_plain by blast+
  from e assms(1,2) have "s = t"
    by (auto simp: recognized_def ext_of_def template_string_def)
  with g h show ?thesis
    by (simp add: hex_inj)
qed

text \<open>
  Claim C8. The location derived from (kind, entryId, contentHash) is a function of the
  triple alone: for each of the three kinds the file name is
  \<open>hex entryId @ ''-'' @ hex contentHash @ ''.'' @ ext\<close> with \<open>i \<mapsto> info\<close>, \<open>a \<mapsto> bin\<close>,
  \<open>r \<mapsto> resource\<close>; the path is the store root, then the directory named by the first
  two characters of the file name, then the file name; and two triples of recognized
  kinds that differ get different paths under the same root.
\<close>

theorem calcFilepath_layout_injective:
  "calcFilename ''i'' g h = hex g @ ''-'' @ hex h @ ''.info'' \<and>
   calcFilename ''a'' g h = hex g @ ''-'' @ hex h @ ''.bin'' \<and>
   calcFilename ''r'' g h = hex g @ ''-'' @ hex h @ ''.resource'' \<and>
   calcFilepath base s g h = base @ [take 2 (calcFilename s g h), calcFilename s g h] \<and>
   (recognized s \<and> recognized t \<and> (s, g, h) \<noteq> (t, g', h')
      \<longrightarrow> calcFilepath base s g h \<noteq> calcFilepath base t g' h')"
proof -
  have names: "calcFilename ''i'' g h = hex g @ ''-'' @ hex h @ ''.info''"
    "calcFilename ''a'' g h = hex g @ ''-'' @ hex h @ ''.bin''"
    "calcFilename ''r'' g h = hex g @ ''-'' @ hex h @ ''.resource''"
    by (simp_all add: calcFilename_def GUIDBufferToString_def ext_of_def template_string_def)
  have layout: "calcFilepath base s g h = base @ [take 2 (calcFilename s g h), calcFilename s g h]"
    by (simp add: calcFilepath_def Let_def)
  have inj: "calcFilepath base s g h \<noteq> calcFilepath base t g' h'"
    if "recognized s" "recognized t" "(s, g, h) \<noteq> (t, g', h')"
  proof
    assume "calcFilepath base s g h = calcFilepath base t g' h'"
    then have "calcFilename s g h = calcFilename t g' h'"
      by (simp add: calcFilepath_def Let_def)
    with that show False
      using calcFilename_inj by blast
  qed
  from names layout inj show ?thesis by blast
qed

theorem calcFilepath_layout_injective_witness:
  "calcFilepath [''cache''] ''i'' [0x1f, 0xa0] [0x05]
     = [''cache'', ''1f'', ''1fa0-05.info''] \<and>
   calcFilepath [''cache''] ''i'' [0x1f, 0xa0] [0x05]
     \<noteq> calcFilepath [''cache''] ''a'' [0x1f, 0xa0] [0x05]"
proof -
  have r: "recognized ''i''" "recognized ''a''"
    by (simp_all add: recognized_def)
  have ne: "(''i'', [0x1f, 0xa0 :: byte], [0x05 :: byte]) \<noteq> (''a'', [0x1f, 0xa0], [0x05])"
    by simp
  have "calcFilepath [''cache''] ''i'' [0x1f, 0xa0] [0x05]
     \<noteq> calcFilepath [''cache''] ''a'' [0x1f, 0xa0] [0x05]"
    using calcFilepath_layout_injective
      [of "[0x1f, 0xa0]" "[0x05]" "[''cache'']" "''i''" "''a''" "[0x1f, 0xa0]" "[0x05]"] r ne
    by blast
  moreover have "calcFilepath [''cache''] ''i'' [0x1f, 0xa0] [0x05]
     = [''cache'', ''1f'', ''1fa0-05.info'']"
    by (simp add: calcFilepath_def calcFilename_def GUIDBufferToString_def hex_def hex_byte_def
        hex_digit_def ext_of_def template_string_def Let_def)
  ultimately show ?thesis by simp
qed

subsection \<open>Opening a write stream\<close>

lemma open_info_stream:
  "getWriteStream ''u1'' 7 ''i'' (JNumber 5) (store0, txn0)
     = (Inr \<lparr>bytesWritten = 0, stream_closed = False\<rparr>, (store1, txn1))"
  by (simp add: getWriteStream_def Let_def fs_ensureFile_def fs_openForWrite_def store0_def
      txn0_def store1_def txn1_def createPutTransaction_def)

text \<open>
  Claim C10. When \<^verbatim>\<open>getWriteStream\<close> is given a size that is not a number or is less than
  or equal to zero, or a kind other than \<^verbatim>\<open>a\<close>, \<^verbatim>\<open>i\<close>, \<^verbatim>\<open>r\<close>, it fails with InvalidArgument and
  leaves the file system and the transaction (its streams and its files) as they were;
  and whenever it fails with InvalidArgument, both are as they were.
\<close>

theorem getWriteStream_invalid_argument_leaves_state:
  "(\<not> is_number sz \<or> le_zero sz \<or> \<not> recognized ty
      \<longrightarrow> (\<exists>e. getWriteStream u now ty sz (fs, t) = (Inl (InvalidArgument e), (fs, t)))) \<and>
   (fst (getWriteStream u now ty sz (fs, t)) = Inl (InvalidArgument e)
      \<longrightarrow> snd (getWriteStream u now ty sz (fs, t)) = (fs, t))"
  by (auto simp: getWriteStream_def recognized_def Let_def split: sum.splits)

theorem getWriteStream_invalid_argument_leaves_state_witness:
  "getWriteStream ''u1'' 7 ''i'' (JNumber 0) (store0, txn0)
     = (Inl (InvalidArgument InvalidSize), (store0, txn0)) \<and>
   getWriteStream ''u1'' 7 ''x'' (JNumber 4) (store0, txn0)
     = (Inl (InvalidArgument UnrecognizedType), (store0, txn0))"
proof -
  have a: "fst (getWriteStream ''u1'' 7 ''i'' (JNumber 0) (store0, txn0)) = Inl (InvalidArgument InvalidSize)"
    by (simp add: getWriteStream_def Let_def)
  have b: "fst (getWriteStream ''u1'' 7 ''x'' (JNumber 4) (store0, txn0)) = Inl (InvalidArgument UnrecognizedType)"
    by (simp add: getWriteStream_def Let_def)
  from a getWriteStream_invalid_argument_leaves_state
    [of "JNumber 0" "''i''" "''u1''" 7 store0 txn0 InvalidSize]
  have "snd (getWriteStream ''u1'' 7 ''i'' (JNumber 0) (store0, txn0)) = (store0, txn0)"
    by blast
  moreover from b getWriteStream_invalid_argument_leaves_state
    [of "JNumber 4" "''x''" "''u1''" 7 store0 txn0 UnrecognizedType]
  have "snd (getWriteStream ''u1'' 7 ''x'' (JNumber 4) (store0, txn0)) = (store0, txn0)"
    by blast
  ultimately show ?thesis using a b by (simp add: prod_eq_iff)
qed

text \<open>NaN and Infinity pass the test of the size.\<close>

lemma getWriteStream_accepts_NaN:
  "fst (getWriteStream ''u1'' 7 ''i'' JNaN (store0, txn0))
     = Inr \<lparr>bytesWritten = 0, stream_closed = False\<rparr>"
  "fst (getWriteStream ''u1'' 7 ''i'' JPosInfinity (store0, txn0))
     = Inr \<lparr>bytesWritten = 0, stream_closed = False\<rparr>"
  by (simp_all add: getWriteStream_def Let_def fs_ensureFile_def store0_def txn0_def
      createPutTransaction_def)

text \<open>
  Claim C2, as the code has it. \<^verbatim>\<open>getWriteStream\<close> fails with InvalidArgument in exactly
  two cases: the size is not of type number or is less than or equal to zero (NaN and
  Infinity are of type number and not less than or equal to zero: they are accepted), or
  the kind is none of \<^verbatim>\<open>a\<close>, \<^verbatim>\<open>i\<close>, \<^verbatim>\<open>r\<close>. Otherwise it creates the temporary file and
  succeeds, also for a kind that has a stream already, whose record it replaces; it fails
  then only when the file cannot be created, with the error of the file system.
\<close>

theorem getWriteStream_failure_cases:
  "((\<exists>e. fst (getWriteStream u now ty sz (fs, t)) = Inl (InvalidArgument e))
      \<longleftrightarrow> \<not> is_number sz \<or> le_zero sz \<or> \<not> recognized ty) \<and>
   (is_number sz \<and> \<not> le_zero sz \<and> recognized ty \<and>
    fs_ensureFile now fs (cachePath t @ [u]) = Inr fs'
      \<longrightarrow> getWriteStream u now ty sz (fs, t)
            = (Inr \<lparr>bytesWritten = 0, stream_closed = False\<rparr>,
               (fs_openForWrite fs' (cachePath t @ [u]), t\<lparr>streams := AList.update ty
                   \<lparr>s_file = cachePath t @ [u], s_type = ty, s_size = sz,
                    s_stream = \<lparr>bytesWritten = 0, stream_closed = False\<rparr>\<rparr> (streams t)\<rparr>))) \<and>
   (is_number sz \<and> \<not> le_zero sz \<and> recognized ty \<and>
    fs_ensureFile now fs (cachePath t @ [u]) = Inl err
      \<longrightarrow> getWriteStream u now ty sz (fs, t) = (Inl err, (fs, t)) \<and> (\<exists>n. err = IOFault n))"
  by (auto simp: getWriteStream_def recognized_def Let_def fs_ensureFile_def split: sum.splits if_splits)

theorem getWriteStream_failure_cases_witness:
  "fst (getWriteStream ''u1'' 7 ''i'' JUndefined (store0, txn0)) = Inl (InvalidArgument InvalidSize) \<and>
   getWriteStream ''u2'' 8 ''i'' (JNumber 9) (store1, txn1)
     = (Inr \<lparr>bytesWritten = 0, stream_closed = False\<rparr>,
        (store1\<lparr>entries := entries store1 @
            [([''cache'', ''u2''], \<lparr>isDirectory = False, st_size = 0, atime = 8\<rparr>)]\<rparr>,
         txn1\<lparr>streams := [(''i'', \<lparr>s_file = [''cache'', ''u2''], s_type = ''i'', s_size = JNumber 9,
              s_stream = \<lparr>bytesWritten = 0, stream_closed = False\<rparr>\<rparr>)]\<rparr>))"
proof -
  have bad: "\<not> is_number JUndefined \<or> le_zero JUndefined \<or> \<not> recognized ''i''"
    by simp
  have good: "is_number (JNumber 9) \<and> \<not> le_zero (JNumber 9) \<and> recognized ''i'' \<and>
    fs_ensureFile 8 store1 (cachePath txn1 @ [''u2''])
      = Inr (store1\<lparr>entries := entries store1 @
            [([''cache'', ''u2''], \<lparr>isDirectory = False, st_size = 0, atime = 8\<rparr>)]\<rparr>)"
    by (simp add: recognized_def fs_ensureFile_def store1_def txn1_def txn0_def
        createPutTransaction_def)
  from bad getWriteStream_failure_cases [of "''u1''" 7 "''i''" JUndefined store0 txn0]
  have "\<exists>e. fst (getWriteStream ''u1'' 7 ''i'' JUndefined (store0, txn0)) = Inl (InvalidArgument e)"
    by blast
  then have a: "fst (getWriteStream ''u1'' 7 ''i'' JUndefined (store0, txn0)) = Inl (InvalidArgument InvalidSize)"
    by (simp add: getWriteStream_def Let_def)
  from good getWriteStream_failure_cases [of "''u2''" 8 "''i''" "JNumber 9" store1 txn1]
  have "getWriteStream ''u2'' 8 ''i'' (JNumber 9) (store1, txn1)
     = (Inr \<lparr>bytesWritten = 0, stream_closed = False\<rparr>,
        (fs_openForWrite (store1\<lparr>entries := entries store1 @
            [([''cache'', ''u2''], \<lparr>isDirectory = False, st_size = 0, atime = 8\<rparr>)]\<rparr>)
           (cachePath txn1 @ [''u2'']),
        txn1\<lparr>streams := AList.update ''i''
                   \<lparr>s_file = cachePath txn1 @ [''u2''], s_type = ''i'', s_size = JNumber 9,
                    s_stream = \<lparr>bytesWritten = 0, stream_closed = False\<rparr>\<rparr> (streams txn1)\<rparr>))"
    by blast
  then have b: "getWriteStream ''u2'' 8 ''i'' (JNumber 9) (store1, txn1)
     = (Inr \<lparr>bytesWritten = 0, stream_closed = False\<rparr>,
        (store1\<lparr>entries := entries store1 @
            [([''cache'', ''u2''], \<lparr>isDirectory = False, st_size = 0, atime = 8\<rparr>)]\<rparr>,
         txn1\<lparr>streams := [(''i'', \<lparr>s_file = [''cache'', ''u2''], s_type = ''i'', s_size = JNumber 9,
              s_stream = \<lparr>bytesWritten = 0, stream_closed = False\<rparr>\<rparr>)]\<rparr>))"
    by (simp add: txn1_def txn0_def createPutTransaction_def store1_def fs_openForWrite_def)
  from a b show ?thesis by simp
qed

text \<open>
  Claim C2 as stated fails: on a transaction that has an info stream open, a second
  \<^verbatim>\<open>getWriteStream('i', 9)\<close> succeeds, and so does a first one with the size 1.5, though
  the specification has both fail.
\<close>

theorem getWriteStream_duplicate_kind_counterexample:
  "spec_getWriteStream_fails txn1 ''i'' (JNumber 9) \<and>
   fst (getWriteStream ''u2'' 8 ''i'' (JNumber 9) (store1, txn1))
     = Inr \<lparr>bytesWritten = 0, stream_closed = False\<rparr> \<and>
   spec_getWriteStream_fails txn0 ''a'' (JNumber (3 / 2)) \<and>
   fst (getWriteStream ''u1'' 7 ''a'' (JNumber (3 / 2)) (store0, txn0))
     = Inr \<lparr>bytesWritten = 0, stream_closed = False\<rparr>"
  by (simp add: getWriteStream_def Let_def fs_ensureFile_def store0_def txn0_def store1_def
      txn1_def createPutTransaction_def spec_getWriteStream_fails_def positive_integer_def)

subsection \<open>Finalizing a transaction\<close>

lemma seen_keeps:
  "final_count ends (seen ends s) = final_count ends s"
  "verified (seen ends s) = verified s"
  "s_size (seen ends s) = s_size s"
  "s_type (seen ends s) = s_type s"
  by (simp_all add: seen_def awaitClose_def final_count_def verified_def split: option.splits)

lemma seen_size_ok: "size_ok ends (seen ends s) = size_ok ends s"
  by (simp add: size_ok_def seen_keeps split: option.splits)

lemma closeStreams_step:
  "closeStreams ends ((k, s) # rest) fl =
     (case final_count ends s of
        None \<Rightarrow> None
      | Some n \<Rightarrow>
          if strict_eq n (s_size s)
          then (case closeStreams ends rest (fl @ [verified s]) of
              None \<Rightarrow> None
            | Some (r, rest', fl'') \<Rightarrow> Some (r, (k, seen ends s) # rest', fl''))
          else Some (Inl SizeMismatch, (k, seen ends s) # rest, fl))"
proof (cases "stream_closed (s_stream s)")
  case True
  then show ?thesis
    by (simp add: final_count_def seen_def processClosedStream_def verified_def
        split: option.splits)
next
  case False
  show ?thesis
  proof (cases "ends (s_file s)")
    case None
    with False show ?thesis
      by (simp add: final_count_def awaitClose_def)
  next
    case (Some n)
    with False show ?thesis
      by (simp add: final_count_def seen_def awaitClose_def processClosedStream_def verified_def
          split: option.splits)
  qed
qed

lemma closeStreams_result:
  "closeStreams ends ss fl =
     (case dropWhile (size_ok ends \<circ> snd) ss of
        [] \<Rightarrow> Some (Inr (), map (apsnd (seen ends)) ss, fl @ map (verified \<circ> snd) ss)
      | (k, s) # rest \<Rightarrow>
          (case final_count ends s of
             None \<Rightarrow> None
           | Some n \<Rightarrow>
               Some (Inl SizeMismatch,
                 map (apsnd (seen ends)) (takeWhile (size_ok ends \<circ> snd) ss) @ (k, seen ends s) # rest,
                 fl @ map (verified \<circ> snd) (takeWhile (size_ok ends \<circ> snd) ss))))"
proof (induction ss arbitrary: fl)
  case Nil
  then show ?case by simp
next
  case (Cons ks ss)
  obtain k s where ks: "ks = (k, s)" by (cases ks)
  define d where "d = dropWhile (size_ok ends \<circ> snd) ss"
  define tk where "tk = takeWhile (size_ok ends \<circ> snd) ss"
  have IH: "closeStreams ends ss fl' =
     (case d of
        [] \<Rightarrow> Some (Inr (), map (apsnd (seen ends)) ss, fl' @ map (verified \<circ> snd) ss)
      | (k, s) # rest \<Rightarrow>
          (case final_count ends s of
             None \<Rightarrow> None
           | Some n \<Rightarrow>
               Some (Inl SizeMismatch, map (apsnd (seen ends)) tk @ (k, seen ends s) # rest,
                 fl' @ map (verified \<circ> snd) tk)))" for fl'
    unfolding d_def tk_def by (rule Cons.IH)
  show ?case
  proof (cases "size_ok ends s")
    case True
    then obtain n where n: "final_count ends s = Some n" "strict_eq n (s_size s)"
      by (auto simp: size_ok_def split: option.splits)
    have dt: "dropWhile (size_ok ends \<circ> snd) (ks # ss) = d"
      "takeWhile (size_ok ends \<circ> snd) (ks # ss) = (k, s) # tk"
      using True by (simp_all add: ks d_def tk_def)
    show ?thesis
    proof (cases d)
      case Nil
      then show ?thesis
        unfolding dt unfolding ks closeStreams_step IH by (simp add: n)
    next
      case (Cons ks' rest')
      obtain k' s' where ks': "ks' = (k', s')" by (cases ks')
      show ?thesis
        unfolding dt unfolding ks closeStreams_step IH
        by (cases "final_count ends s'") (simp_all add: n Cons ks')
    qed
  next
    case False
    then show ?thesis
      unfolding ks closeStreams_step
      by (simp add: size_ok_def split: option.splits)
  qed
qed

lemma closeAllStreams_closeStreams:
  "closeAllStreams ends t = (case closeStreams ends (streams t) (files t) of
       None \<Rightarrow> None
     | Some (r, ss, fl) \<Rightarrow> Some (r, t\<lparr>streams := ss, files := fl\<rparr>))"
  by (cases "streams t") (simp_all add: closeAllStreams_def Let_def)

lemma finalize_first_failure:
  assumes "dropWhile (size_ok ends \<circ> snd) (streams t) = (k, s) # rest"
  shows "final_count ends s = None \<Longrightarrow> finalize ends t = None"
    and "final_count ends s = Some n \<Longrightarrow> finalize ends t = Some (Inl SizeMismatch,
       t\<lparr>streams := map (apsnd (seen ends)) (takeWhile (size_ok ends \<circ> snd) (streams t))
             @ (k, seen ends s) # rest,
         files := files t @ map (verified \<circ> snd) (takeWhile (size_ok ends \<circ> snd) (streams t))\<rparr>)"
  by (simp_all add: finalize_def closeAllStreams_closeStreams closeStreams_result assms)


lemma first_failure_keyed:
  assumes "dropWhile (size_ok ends) (map snd ss) = s # rest"
  shows "\<exists>k rest'. dropWhile (size_ok ends \<circ> snd) ss = (k, s) # rest' \<and> map snd rest' = rest"
proof -
  from assms have "map snd (dropWhile (size_ok ends \<circ> snd) ss) = s # rest"
    by (simp add: dropWhile_map)
  then show ?thesis by (cases "dropWhile (size_ok ends \<circ> snd) ss") auto
qed

text \<open>
  Claim C5, as the code has it. \<^verbatim>\<open>finalize\<close> goes through the recorded streams in the
  order of their keys; there is one per kind, and a stream that a later
  \<^verbatim>\<open>getWriteStream\<close> of its kind has replaced is not among them. Let \<open>s\<close> be the first
  recorded stream that does not close with the bytes it declared. If \<open>s\<close> closes with
  another count, \<^verbatim>\<open>finalize\<close> fails with SizeMismatch, and \<^verbatim>\<open>files\<close> has gained the
  entries of the streams before \<open>s\<close> and no other: on a fresh transaction neither \<open>s\<close> nor
  a stream after it is in the manifest. The transaction keeps no mark of the failure:
  its identity and the kinds of its streams are as before, and a second \<^verbatim>\<open>finalize\<close>
  fails the same way and adds the same entries once more. If \<open>s\<close> is never ended,
  \<^verbatim>\<open>finalize\<close> never returns, whatever the streams after \<open>s\<close> hold.
\<close>

theorem finalize_size_mismatch:
  assumes "dropWhile (size_ok ends) (map snd (streams t)) = s # rest"
  shows "(size_mismatch ends s \<longrightarrow>
      (\<exists>t'. finalize ends t = Some (Inl SizeMismatch, t') \<and>
         files t' = files t @ map verified (takeWhile (size_ok ends) (map snd (streams t))) \<and>
         guid t' = guid t \<and> hash t' = hash t \<and> cachePath t' = cachePath t \<and>
         map fst (streams t') = map fst (streams t) \<and>
         (\<exists>t''. finalize ends t' = Some (Inl SizeMismatch, t'') \<and>
            files t'' = files t' @ map verified (takeWhile (size_ok ends) (map snd (streams t)))) \<and>
         (files t = [] \<and> distinct (map (s_type \<circ> snd) (streams t)) \<longrightarrow>
            (\<forall>x \<in> set (s # rest). s_type x \<notin> set (manifest t'))))) \<and>
     (final_count ends s = None \<longrightarrow> finalize ends t = None)"
proof -
  let ?ok = "size_ok ends \<circ> snd"
  let ?pre = "takeWhile ?ok (streams t)"
  obtain k rest' where first: "dropWhile ?ok (streams t) = (k, s) # rest'"
    and rest': "map snd rest' = rest"
    using first_failure_keyed [OF assms] by blast
  have split: "streams t = ?pre @ (k, s) # rest'"
    using takeWhile_dropWhile_id [of ?ok "streams t"] first by simp
  have pre: "map verified (takeWhile (size_ok ends) (map snd (streams t))) = map (verified \<circ> snd) ?pre"
    by (simp add: takeWhile_map)
  have never: "finalize ends t = None" if "final_count ends s = None"
    using finalize_first_failure(1) [OF first that] .
  have fails: "\<exists>t'. finalize ends t = Some (Inl SizeMismatch, t') \<and>
         files t' = files t @ map verified (takeWhile (size_ok ends) (map snd (streams t))) \<and>
         guid t' = guid t \<and> hash t' = hash t \<and> cachePath t' = cachePath t \<and>
         map fst (streams t') = map fst (streams t) \<and>
         (\<exists>t''. finalize ends t' = Some (Inl SizeMismatch, t'') \<and>
            files t'' = files t' @ map verified (takeWhile (size_ok ends) (map snd (streams t)))) \<and>
         (files t = [] \<and> distinct (map (s_type \<circ> snd) (streams t)) \<longrightarrow>
            (\<forall>x \<in> set (s # rest). s_type x \<notin> set (manifest t')))"
    if mis: "size_mismatch ends s"
  proof -
    from mis obtain n where n: "final_count ends s = Some n" and ne: "\<not> strict_eq n (s_size s)"
      by (auto simp: size_mismatch_def split: option.splits)
    define t' where "t' = t\<lparr>streams := map (apsnd (seen ends)) ?pre @ (k, seen ends s) # rest',
         files := files t @ map (verified \<circ> snd) ?pre\<rparr>"
    have fin: "finalize ends t = Some (Inl SizeMismatch, t')"
      unfolding t'_def by (rule finalize_first_failure(2) [OF first n])
    have "map fst (streams t') = map fst (?pre @ (k, s) # rest')"
      by (simp add: t'_def comp_def)
    then have keys: "map fst (streams t') = map fst (streams t)"
      using split by simp
    have okpre: "\<And>x. x \<in> set (map (apsnd (seen ends)) ?pre) \<Longrightarrow> ?ok x"
      by (auto simp: seen_size_ok dest: set_takeWhileD)
    have "\<not> size_ok ends s"
      using n ne by (simp add: size_ok_def)
    then have notok: "\<not> ?ok (k, seen ends s)"
      by (simp add: seen_size_ok)
    have st': "streams t' = map (apsnd (seen ends)) ?pre @ (k, seen ends s) # rest'"
      by (simp add: t'_def)
    have d1: "dropWhile ?ok ((k, seen ends s) # rest') = (k, seen ends s) # rest'"
      and t1: "takeWhile ?ok ((k, seen ends s) # rest') = []"
      using notok by simp_all
    have "dropWhile ?ok (map (apsnd (seen ends)) ?pre @ (k, seen ends s) # rest')
        = dropWhile ?ok ((k, seen ends s) # rest')"
      by (rule dropWhile_append2) (rule okpre)
    then have first': "dropWhile ?ok (streams t') = (k, seen ends s) # rest'"
      unfolding st' d1 .
    have "takeWhile ?ok (map (apsnd (seen ends)) ?pre @ (k, seen ends s) # rest')
        = map (apsnd (seen ends)) ?pre @ takeWhile ?ok ((k, seen ends s) # rest')"
      by (rule takeWhile_append2) (rule okpre)
    then have take': "takeWhile ?ok (streams t') = map (apsnd (seen ends)) ?pre"
      unfolding st' t1 by simp
    have n': "final_count ends (seen ends s) = Some n"
      by (simp add: seen_keeps n)
    have again: "finalize ends t' = Some (Inl SizeMismatch,
        t'\<lparr>streams := map (apsnd (seen ends)) (takeWhile ?ok (streams t'))
              @ (k, seen ends (seen ends s)) # rest',
           files := files t' @ map (verified \<circ> snd) (takeWhile ?ok (streams t'))\<rparr>)"
      by (rule finalize_first_failure(2) [OF first' n'])
    have same: "map (verified \<circ> snd) (takeWhile ?ok (streams t')) = map (verified \<circ> snd) ?pre"
      unfolding take' by (simp add: seen_keeps)
    have man: "s_type x \<notin> set (manifest t')"
      if e: "files t = []" and d: "distinct (map (s_type \<circ> snd) (streams t))"
        and x: "x \<in> set (s # rest)" for x
    proof -
      have m: "manifest t' = map (s_type \<circ> snd) ?pre"
        by (simp add: manifest_def t'_def e verified_def comp_def)
      from d have "distinct (map (s_type \<circ> snd) (?pre @ (k, s) # rest'))"
        using split by simp
      then have "set (map (s_type \<circ> snd) ?pre) \<inter> set (map (s_type \<circ> snd) ((k, s) # rest')) = {}"
        by (simp only: map_append distinct_append)
      moreover from x rest' have "s_type x \<in> set (map (s_type \<circ> snd) ((k, s) # rest'))"
        by auto
      ultimately show ?thesis unfolding m by blast
    qed
    from fin keys again same man show ?thesis
      by (auto simp: pre t'_def)
  qed
  from never fails show ?thesis by blast
qed

lemmas finalize_eval =
  finalize_def closeAllStreams_def processClosedStream_def awaitClose_def strict_eq_def
  super_finalize_def Let_def

theorem finalize_size_mismatch_witness:
  "(\<exists>t'. finalize ends_short txn_short = Some (Inl SizeMismatch, t') \<and>
      files t' = [\<lparr>f_file = [''cache'', ''u1''], f_type = ''i'', f_size = JNumber 5\<rparr>] \<and>
      ''a'' \<notin> set (manifest t') \<and>
      (\<exists>t''. finalize ends_short t' = Some (Inl SizeMismatch, t'') \<and>
         files t'' = [\<lparr>f_file = [''cache'', ''u1''], f_type = ''i'', f_size = JNumber 5\<rparr>,
                      \<lparr>f_file = [''cache'', ''u1''], f_type = ''i'', f_size = JNumber 5\<rparr>])) \<and>
   finalize ends_never txn_stuck = None"
proof -
  let ?i = "\<lparr>s_file = [''cache'', ''u1''], s_type = ''i'', s_size = JNumber 5,
              s_stream = \<lparr>bytesWritten = 5, stream_closed = True\<rparr>\<rparr>"
  let ?a = "\<lparr>s_file = [''cache'', ''u2''], s_type = ''a'', s_size = JNumber 9,
              s_stream = \<lparr>bytesWritten = 0, stream_closed = False\<rparr>\<rparr>"
  let ?i' = "\<lparr>s_file = [''cache'', ''u1''], s_type = ''i'', s_size = JNumber 5,
              s_stream = \<lparr>bytesWritten = 0, stream_closed = False\<rparr>\<rparr>"
  let ?a' = "\<lparr>s_file = [''cache'', ''u2''], s_type = ''a'', s_size = JNumber 9,
              s_stream = \<lparr>bytesWritten = 4, stream_closed = True\<rparr>\<rparr>"
  have ss: "map snd (streams txn_short) = [?i, ?a]"
    by (simp add: txn_short_def)
  have oki: "size_ok ends_short ?i" and oka: "\<not> size_ok ends_short ?a"
    by (simp_all add: size_ok_def final_count_def strict_eq_def ends_short_def)
  have first: "dropWhile (size_ok ends_short) (map snd (streams txn_short)) = ?a # []"
    and pre: "takeWhile (size_ok ends_short) (map snd (streams txn_short)) = [?i]"
    unfolding ss using oki oka by simp_all
  have mis: "size_mismatch ends_short ?a"
    by (simp add: size_mismatch_def final_count_def strict_eq_def ends_short_def)
  have fresh: "files txn_short = [] \<and> distinct (map (s_type \<circ> snd) (streams txn_short))"
    by (simp add: txn_short_def txn0_def createPutTransaction_def)
  from finalize_size_mismatch [OF first] mis fresh
  obtain t' where t': "finalize ends_short txn_short = Some (Inl SizeMismatch, t')"
    "files t' = files txn_short @ map verified (takeWhile (size_ok ends_short) (map snd (streams txn_short)))"
    "\<exists>t''. finalize ends_short t' = Some (Inl SizeMismatch, t'') \<and>
       files t'' = files t' @ map verified (takeWhile (size_ok ends_short) (map snd (streams txn_short)))"
    "\<forall>x \<in> set (?a # []). s_type x \<notin> set (manifest t')"
    by blast
  have f1: "files t' = [\<lparr>f_file = [''cache'', ''u1''], f_type = ''i'', f_size = JNumber 5\<rparr>]"
    unfolding t'(2) pre using fresh by (simp add: verified_def)
  have f2: "\<exists>t''. finalize ends_short t' = Some (Inl SizeMismatch, t'') \<and>
       files t'' = [\<lparr>f_file = [''cache'', ''u1''], f_type = ''i'', f_size = JNumber 5\<rparr>,
                    \<lparr>f_file = [''cache'', ''u1''], f_type = ''i'', f_size = JNumber 5\<rparr>]"
    using t'(3) unfolding f1 pre by (simp add: verified_def)
  have f3: "''a'' \<notin> set (manifest t')"
    using t'(4) by simp
  have ss': "map snd (streams txn_stuck) = [?i', ?a']"
    by (simp add: txn_stuck_def)
  have "\<not> size_ok ends_never ?i'"
    by (simp add: size_ok_def final_count_def ends_never_def)
  then have first': "dropWhile (size_ok ends_never) (map snd (streams txn_stuck)) = ?i' # [?a']"
    unfolding ss' by simp
  have never: "final_count ends_never ?i' = None"
    by (simp add: final_count_def ends_never_def)
  from finalize_size_mismatch [OF first'] never
  have "finalize ends_never txn_stuck = None"
    by blast
  with t'(1) f1 f2 f3 show ?thesis by blast
qed

lemma reopen_info_stream:
  "getWriteStream ''u2'' 8 ''i'' (JNumber 9) (store1, txn1)
     = (Inr \<lparr>bytesWritten = 0, stream_closed = False\<rparr>, (store2, txn_reopened))"
  by (simp add: getWriteStream_def Let_def fs_ensureFile_def fs_openForWrite_def store1_def
      store2_def txn0_def txn1_def txn_reopened_def createPutTransaction_def)

lemma finalize_reopened:
  "finalize ends_reopened txn_reopened = Some (Inr (),
     txn_reopened\<lparr>streams := [(''i'', \<lparr>s_file = [''cache'', ''u2''], s_type = ''i'',
         s_size = JNumber 9, s_stream = \<lparr>bytesWritten = 9, stream_closed = True\<rparr>\<rparr>)],
       files := [\<lparr>f_file = [''cache'', ''u2''], f_type = ''i'', f_size = JNumber 9\<rparr>]\<rparr>)"
  by (simp add: finalize_eval ends_reopened_def txn_reopened_def txn0_def createPutTransaction_def)

lemma finalize_stuck: "finalize ends_never txn_stuck = None"
  by (simp add: finalize_eval ends_never_def txn_stuck_def txn0_def createPutTransaction_def)

lemma stuck_mismatch:
  "size_mismatch ends_never \<lparr>s_file = [''cache'', ''u2''], s_type = ''a'', s_size = JNumber 9,
      s_stream = \<lparr>bytesWritten = 4, stream_closed = True\<rparr>\<rparr>"
  "map_of (streams txn_stuck) ''a'' = Some \<lparr>s_file = [''cache'', ''u2''], s_type = ''a'',
      s_size = JNumber 9, s_stream = \<lparr>bytesWritten = 4, stream_closed = True\<rparr>\<rparr>"
  by (simp_all add: size_mismatch_def final_count_def strict_eq_def txn_stuck_def)

lemma reopened_first_stream: "ends_reopened [''cache'', ''u1''] = Some 0" "\<not> strict_eq 0 (JNumber 5)"
  by (simp_all add: ends_reopened_def strict_eq_def)

text \<open>
  Claim C5 as stated fails. An info stream opened for 5 bytes and then replaced by a
  second info stream, for 9 bytes, is ended with no byte written: \<^verbatim>\<open>finalize\<close> does not
  see it and succeeds on the 9 bytes of the second. And in a transaction whose info
  stream is never ended, the data stream has closed with 4 bytes of the 9 it declared,
  and \<^verbatim>\<open>finalize\<close> does not fail: it never returns.
\<close>

theorem finalize_unseen_stream_counterexample:
  "getWriteStream ''u1'' 7 ''i'' (JNumber 5) (store0, txn0)
     = (Inr \<lparr>bytesWritten = 0, stream_closed = False\<rparr>, (store1, txn1)) \<and>
   getWriteStream ''u2'' 8 ''i'' (JNumber 9) (store1, txn1)
     = (Inr \<lparr>bytesWritten = 0, stream_closed = False\<rparr>, (store2, txn_reopened)) \<and>
   ends_reopened [''cache'', ''u1''] = Some 0 \<and> \<not> strict_eq 0 (JNumber 5) \<and>
   finalize ends_reopened txn_reopened = Some (Inr (),
     txn_reopened\<lparr>streams := [(''i'', \<lparr>s_file = [''cache'', ''u2''], s_type = ''i'',
         s_size = JNumber 9, s_stream = \<lparr>bytesWritten = 9, stream_closed = True\<rparr>\<rparr>)],
       files := [\<lparr>f_file = [''cache'', ''u2''], f_type = ''i'', f_size = JNumber 9\<rparr>]\<rparr>) \<and>
   map_of (streams txn_stuck) ''a'' = Some \<lparr>s_file = [''cache'', ''u2''], s_type = ''a'',
      s_size = JNumber 9, s_stream = \<lparr>bytesWritten = 4, stream_closed = True\<rparr>\<rparr> \<and>
   size_mismatch ends_never \<lparr>s_file = [''cache'', ''u2''], s_type = ''a'', s_size = JNumber 9,
      s_stream = \<lparr>bytesWritten = 4, stream_closed = True\<rparr>\<rparr> \<and>
   finalize ends_never txn_stuck = None"
  by (intro conjI open_info_stream reopen_info_stream reopened_first_stream finalize_reopened
      stuck_mismatch finalize_stuck)

subsection \<open>Cleanup\<close>

text \<open>
  Claim C9. When the expiry duration is invalid or zero (as a missing option is),
  \<^verbatim>\<open>cleanup\<close> fails with InvalidArgument, emits no event and leaves the file system as it
  was.
\<close>

theorem cleanup_rejects_invalid_expireTimeSpan:
  "\<not> isValid (expireTimeSpan opts) \<or> asMilliseconds (expireTimeSpan opts) = 0
     \<Longrightarrow> cleanup srt opts dryRun now base fs
           = (Inl (InvalidArgument InvalidExpireTimeSpan), [], fs)"
  by (auto simp: cleanup_def Let_def)

theorem cleanup_rejects_invalid_expireTimeSpan_witness:
  "cleanup insertion_sort
      \<lparr>expireTimeSpan = \<lparr>isValid = True, asMilliseconds = 0\<rparr>, maxCacheSize = 0\<rparr>
      False 100 [''cache''] store0
     = (Inl (InvalidArgument InvalidExpireTimeSpan), [], store0) \<and>
   cleanup insertion_sort
      \<lparr>expireTimeSpan = \<lparr>isValid = False, asMilliseconds = 86400000\<rparr>, maxCacheSize = 0\<rparr>
      False 100 [''cache''] store0
     = (Inl (InvalidArgument InvalidExpireTimeSpan), [], store0)"
  using cleanup_rejects_invalid_expireTimeSpan
      [of "\<lparr>expireTimeSpan = \<lparr>isValid = True, asMilliseconds = 0\<rparr>, maxCacheSize = 0\<rparr>"
          insertion_sort False 100 "[''cache'']" store0]
    cleanup_rejects_invalid_expireTimeSpan
      [of "\<lparr>expireTimeSpan = \<lparr>isValid = False, asMilliseconds = 86400000\<rparr>, maxCacheSize = 0\<rparr>"
          insertion_sort False 100 "[''cache'']" store0]
  by simp

subsection \<open>Committing a transaction\<close>


















subsection \<open>The search of cleanup\<close>

lemma filterTransform_fields:
  "deleteItems (filterTransform m i st)
     = deleteItems st @ (if expired m i then [item_path i] else [])"
  "allItems (filterTransform m i st)
     = allItems st @ (if isDirectory (item_stats i) then [] else [i])"
  "\<exists>evs. emitted (filterTransform m i st) = emitted st @ evs \<and> list_all search_event evs"
  by (simp_all add: filterTransform_def expired_def emit_def Let_def)

lemma walk_from:
  "deleteItems (foldl (\<lambda>st i. filterTransform m i st) st items)
     = deleteItems st @ map item_path (filter (expired m) items) \<and>
   allItems (foldl (\<lambda>st i. filterTransform m i st) st items)
     = allItems st @ filter (\<lambda>i. \<not> isDirectory (item_stats i)) items \<and>
   (\<exists>evs. emitted (foldl (\<lambda>st i. filterTransform m i st) st items) = emitted st @ evs
        \<and> list_all search_event evs)"
proof (induction items arbitrary: st)
  case Nil
  then show ?case by simp
next
  case (Cons i items)
  obtain e1 where e1: "emitted (filterTransform m i st) = emitted st @ e1" "list_all search_event e1"
    using filterTransform_fields(3) by blast
  obtain e2 where e2: "emitted (foldl (\<lambda>st i. filterTransform m i st) (filterTransform m i st) items)
      = emitted (filterTransform m i st) @ e2" "list_all search_event e2"
    using Cons.IH by blast
  have "emitted (foldl (\<lambda>st i. filterTransform m i st) st (i # items)) = emitted st @ (e1 @ e2)
      \<and> list_all search_event (e1 @ e2)"
    using e1 e2 by simp
  then show ?case
    using Cons.IH [of "filterTransform m i st"] by (auto simp: filterTransform_fields(1,2))
qed

lemma walk_result:
  "deleteItems (walk m items) = map item_path (filter (expired m) items)"
  "allItems (walk m items) = filter (\<lambda>i. \<not> isDirectory (item_stats i)) items"
  "list_all search_event (emitted (walk m items))"
  using walk_from [of m scan_start items] by (auto simp: walk_def scan_start_def)

lemma evict_fields:
  "\<exists>more evs. deleteItems (evict mx xs st) = deleteItems st @ more \<and>
     emitted (evict mx xs st) = emitted st @ evs \<and> list_all search_event evs"
proof (induction xs arbitrary: st)
  case Nil
  then show ?case by simp
next
  case (Cons x xs)
  let ?st2 = "(emit (cleanup_search_progress (progressData st)) st)
      \<lparr>deleteSize := deleteSize st + st_size (item_stats x),
        deleteItems := deleteItems st @ [item_path x]\<rparr>"
  have st2: "deleteItems ?st2 = deleteItems st @ [item_path x]"
    "emitted ?st2 = emitted st @ [cleanup_search_progress (progressData st)]"
    by (simp_all add: emit_def)
  show ?case
  proof (cases "cacheSize ?st2 - deleteSize ?st2 \<le> mx")
    case True
    then have "evict mx (x # xs) st = ?st2"
      by (simp add: Let_def emit_def)
    with st2 show ?thesis by simp
  next
    case False
    then have "evict mx (x # xs) st = evict mx xs ?st2"
      by (simp add: Let_def emit_def)
    moreover obtain more evs where "deleteItems (evict mx xs ?st2) = deleteItems ?st2 @ more"
      "emitted (evict mx xs ?st2) = emitted ?st2 @ evs" "list_all search_event evs"
      using Cons.IH by blast
    ultimately show ?thesis using st2 by simp
  qed
qed

lemma sizePass_fields:
  "\<exists>more evs. deleteItems (sizePass srt mx st) = deleteItems st @ more \<and>
     emitted (sizePass srt mx st) = emitted st @ evs \<and> list_all search_event evs"
proof (cases "mx > 0 \<and> cacheSize st - deleteSize st > mx")
  case True
  let ?st' = "st\<lparr>allItems := srt (\<lambda>a b. atime (item_stats a) > atime (item_stats b)) (allItems st)\<rparr>"
  from True have "sizePass srt mx st = evict mx (allItems ?st') ?st'"
    by (simp add: sizePass_def Let_def)
  then show ?thesis
    using evict_fields [of mx "allItems ?st'" ?st'] by simp
next
  case False
  then have "sizePass srt mx st = st" by (auto simp: sizePass_def)
  then show ?thesis by simp
qed

lemma sizePass_unset: "mx \<le> 0 \<Longrightarrow> sizePass srt mx st = st"
  by (simp add: sizePass_def)


lemma search_state_events:
  "list_all search_event (emitted (sizePass srt mx (walk m items)))"
  using sizePass_fields [of srt mx "walk m items"] walk_result(3) [of m items] by auto

lemma progressData_emit: "progressData (emit ev st) = progressData st"
  by (simp add: progressData_def emit_def)

lemma cleanup_dry_run:
  assumes "isValid (expireTimeSpan opts)" "asMilliseconds (expireTimeSpan opts) \<noteq> 0"
    and "klaw fs base = Inr items"
  shows "\<exists>evs c s d. cleanup srt opts True now base fs
      = (Inr (), evs @ [cleanup_search_finish (Progress c s (length (marked srt opts now items)) d),
                        cleanup_delete_finish (Progress c s (length (marked srt opts now items)) d)], fs)
      \<and> list_all search_event evs"
proof -
  let ?st = "sizePass srt (maxCacheSize opts) (walk (now - asMilliseconds (expireTimeSpan opts)) items)"
  obtain c s d where pd: "progressData ?st = Progress c s (length (marked srt opts now items)) d"
    by (simp add: progressData_def marked_def)
  have "cleanup srt opts True now base fs
      = (Inr (), emitted ?st @ [cleanup_search_finish (progressData ?st),
            cleanup_delete_finish (progressData ?st)], fs)"
    using assms by (simp add: cleanup_def cleanup_finalize_def Let_def progressData_emit) (simp add: emit_def)
  with pd search_state_events show ?thesis by metis
qed

text \<open>
  The store with a file read two days ago and one read ten minutes ago, with an expiry of
  a day and no size limit: a run removes the first file and nothing else, and a dry run
  removes nothing and reports one file to delete.
\<close>

lemma cleanup_expiry_example_run:
  "snd (snd (cleanup insertion_sort opts_day False 200000000 [''cache''] store_age))
     = \<lparr>entries =
           [([''cache''], \<lparr>isDirectory = True, st_size = 0, atime = 0\<rparr>),
            ([''cache'', ''2e'', ''new''], \<lparr>isDirectory = False, st_size = 40, atime = 199400000\<rparr>)],
         denied = {}\<rparr>"
  by code_simp

lemma cleanup_expiry_example_dry:
  "snd (snd (cleanup insertion_sort opts_day True 200000000 [''cache''] store_age)) = store_age"
  "last (fst (snd (cleanup insertion_sort opts_day True 200000000 [''cache''] store_age)))
     = cleanup_delete_finish (Progress 2 140 1 100)"
  by code_simp+

subsection \<open>The deletion sweep\<close>

lemma map_of_filter_keys:
  "map_of (filter (\<lambda>(p, _). Q p) es) q = (if Q q then map_of es q else None)"
  by (induction es) auto

lemma unlinkItems_ok:
  assumes "distinct ps" "\<forall>p \<in> set ps. map_of (entries fs) p \<noteq> None \<and> p \<notin> denied fs"
  shows "unlinkItems ps (fs, st)
     = (Inr (), (fs\<lparr>entries := filter (\<lambda>(p, _). p \<notin> set ps) (entries fs)\<rparr>,
                 st\<lparr>emitted := emitted st @ map cleanup_delete_item ps\<rparr>))"
  using assms
proof (induction ps arbitrary: fs st)
  case Nil
  then show ?case by simp
next
  case (Cons p ps)
  let ?fs' = "fs\<lparr>entries := AList.delete p (entries fs)\<rparr>"
  from Cons.prems have un: "fs_unlink fs p = Inr ?fs'"
    by (auto simp: fs_unlink_def)
  have rest: "\<forall>q \<in> set ps. map_of (entries ?fs') q \<noteq> None \<and> q \<notin> denied ?fs'"
    using Cons.prems by (auto simp: AList.delete_conv')
  have dist: "distinct ps" using Cons.prems by simp
  have "unlinkItems ps (?fs', emit (cleanup_delete_item p) st)
     = (Inr (), (?fs'\<lparr>entries := filter (\<lambda>(q, _). q \<notin> set ps) (entries ?fs')\<rparr>,
          (emit (cleanup_delete_item p) st)
             \<lparr>emitted := emitted (emit (cleanup_delete_item p) st) @ map cleanup_delete_item ps\<rparr>))"
    by (rule Cons.IH [OF dist rest])
  moreover have "filter (\<lambda>(q, _). q \<notin> set ps) (AList.delete p (entries fs))
      = filter (\<lambda>(q, _). q \<notin> set (p # ps)) (entries fs)"
    by (auto simp: AList.delete_eq intro: filter_cong)
  ultimately show ?case
    using un by (simp add: emit_def Let_def)
qed

lemma unlinkItems_append:
  "unlinkItems (ps @ qs) w = (case unlinkItems ps w of
       (Inl e, w') \<Rightarrow> (Inl e, w') | (Inr _, w') \<Rightarrow> unlinkItems qs w')"
proof (induction ps arbitrary: w)
  case Nil
  then show ?case by (cases w) simp
next
  case (Cons p ps)
  obtain fs st where w: "w = (fs, st)" by (cases w)
  show ?case
    by (cases "fs_unlink fs p") (simp_all add: w Let_def Cons.IH)
qed

lemma unlinkItems_fail:
  assumes "distinct ps" "\<forall>p \<in> set ps. map_of (entries fs) p \<noteq> None \<and> p \<notin> denied fs"
    and "q \<in> denied fs \<or> map_of (entries fs) q = None \<or> q \<in> set ps"
  shows "\<exists>e. unlinkItems (ps @ q # rest) (fs, st)
     = (Inl (IOFault e), (fs\<lparr>entries := filter (\<lambda>(p, _). p \<notin> set ps) (entries fs)\<rparr>,
                 st\<lparr>emitted := emitted st @ map cleanup_delete_item (ps @ [q])\<rparr>))"
proof -
  let ?fs1 = "fs\<lparr>entries := filter (\<lambda>(p, _). p \<notin> set ps) (entries fs)\<rparr>"
  let ?st1 = "st\<lparr>emitted := emitted st @ map cleanup_delete_item ps\<rparr>"
  have "\<exists>e. fs_unlink ?fs1 q = Inl (IOFault e)"
    using assms(3) by (auto simp: fs_unlink_def map_of_filter_keys)
  then obtain e where "fs_unlink ?fs1 q = Inl (IOFault e)" ..
  then have "unlinkItems (q # rest) (?fs1, ?st1)
      = (Inl (IOFault e), (?fs1, st\<lparr>emitted := emitted st @ map cleanup_delete_item (ps @ [q])\<rparr>))"
    by (simp add: emit_def Let_def)
  then show ?thesis
    by (simp add: unlinkItems_append unlinkItems_ok [OF assms(1,2)])
qed

text \<open>
  Claim C3, as the code has it. In a run that is not dry the marked files are unlinked
  in order, each after its \<^verbatim>\<open>cleanup_delete_item\<close> event. The first unlink that fails
  (the path is refused, is missing, or was unlinked earlier in the sweep) ends the sweep:
  the cleanup call fails with that error, the marked files after it are not attempted,
  no \<^verbatim>\<open>cleanup_delete_finish\<close> event is emitted, and the files unlinked before it stay
  deleted.
\<close>

theorem cleanup_delete_failure_aborts:
  assumes "isValid (expireTimeSpan opts)" "asMilliseconds (expireTimeSpan opts) \<noteq> 0"
    and "klaw fs base = Inr items"
    and "marked srt opts now items = ps @ q # rest"
    and "distinct ps" "\<forall>p \<in> set ps. map_of (entries fs) p \<noteq> None \<and> p \<notin> denied fs"
    and "q \<in> denied fs \<or> map_of (entries fs) q = None \<or> q \<in> set ps"
  shows "\<exists>e evs pd. cleanup srt opts False now base fs
     = (Inl (IOFault e),
        evs @ cleanup_search_finish pd # map cleanup_delete_item (ps @ [q]),
        fs\<lparr>entries := filter (\<lambda>(p, _). p \<notin> set ps) (entries fs)\<rparr>)
     \<and> list_all search_event evs"
proof -
  let ?st = "sizePass srt (maxCacheSize opts) (walk (now - asMilliseconds (expireTimeSpan opts)) items)"
  let ?st2 = "emit (cleanup_search_finish (progressData ?st)) ?st"
  have d: "deleteItems ?st2 = ps @ q # rest"
    using assms(4) by (simp add: marked_def emit_def)
  obtain e where e: "unlinkItems (ps @ q # rest) (fs, ?st2)
     = (Inl (IOFault e), (fs\<lparr>entries := filter (\<lambda>(p, _). p \<notin> set ps) (entries fs)\<rparr>,
                 ?st2\<lparr>emitted := emitted ?st2 @ map cleanup_delete_item (ps @ [q])\<rparr>))"
    using unlinkItems_fail [OF assms(5,6,7)] by blast
  have "cleanup srt opts False now base fs
     = (Inl (IOFault e),
        emitted ?st @ cleanup_search_finish (progressData ?st) # map cleanup_delete_item (ps @ [q]),
        fs\<lparr>entries := filter (\<lambda>(p, _). p \<notin> set ps) (entries fs)\<rparr>)"
    using assms(1,2,3) by (simp add: cleanup_def cleanup_finalize_def Let_def d e) (simp add: emit_def)
  with search_state_events show ?thesis by blast
qed

theorem cleanup_delete_failure_aborts_witness:
  "\<exists>evs pd. cleanup insertion_sort opts_day False 200000000 [''cache''] store_locked
     = (Inl (IOFault EACCES),
        evs @ cleanup_search_finish pd #
          [cleanup_delete_item [''cache'', ''1f'', ''A''], cleanup_delete_item [''cache'', ''2e'', ''B'']],
        \<lparr>entries =
           [([''cache''], \<lparr>isDirectory = True, st_size = 0, atime = 0\<rparr>),
            ([''cache'', ''2e'', ''B''], \<lparr>isDirectory = False, st_size = 10, atime = 2\<rparr>),
            ([''cache'', ''3d'', ''C''], \<lparr>isDirectory = False, st_size = 10, atime = 3\<rparr>)],
         denied = {[''cache'', ''2e'', ''B'']}\<rparr>)
     \<and> list_all search_event evs"
proof -
  let ?items = "[\<lparr>item_path = [''cache''], item_stats = \<lparr>isDirectory = True, st_size = 0, atime = 0\<rparr>\<rparr>,
      \<lparr>item_path = [''cache'', ''1f'', ''A''], item_stats = \<lparr>isDirectory = False, st_size = 10, atime = 1\<rparr>\<rparr>,
      \<lparr>item_path = [''cache'', ''2e'', ''B''], item_stats = \<lparr>isDirectory = False, st_size = 10, atime = 2\<rparr>\<rparr>,
      \<lparr>item_path = [''cache'', ''3d'', ''C''], item_stats = \<lparr>isDirectory = False, st_size = 10, atime = 3\<rparr>\<rparr>]"
  have v: "isValid (expireTimeSpan opts_day)" "asMilliseconds (expireTimeSpan opts_day) \<noteq> 0"
    by (simp_all add: opts_day_def)
  have k: "klaw store_locked [''cache''] = Inr ?items"
    by (simp add: klaw_def store_locked_def)
  have m: "marked insertion_sort opts_day 200000000 ?items
      = [[''cache'', ''1f'', ''A'']] @ [''cache'', ''2e'', ''B''] # [[''cache'', ''3d'', ''C'']]"
    by code_simp
  have d: "distinct [[''cache'', ''1f'', ''A'']]" by simp
  have ok: "\<forall>p \<in> set [[''cache'', ''1f'', ''A'']].
      map_of (entries store_locked) p \<noteq> None \<and> p \<notin> denied store_locked"
    by (simp add: store_locked_def)
  have bad: "[''cache'', ''2e'', ''B''] \<in> denied store_locked
      \<or> map_of (entries store_locked) [''cache'', ''2e'', ''B''] = None
      \<or> [''cache'', ''2e'', ''B''] \<in> set [[''cache'', ''1f'', ''A'']]"
    by (simp add: store_locked_def)
  from cleanup_delete_failure_aborts [OF v k m d ok bad]
  obtain e evs pd where r: "cleanup insertion_sort opts_day False 200000000 [''cache''] store_locked
     = (Inl (IOFault e),
        evs @ cleanup_search_finish pd # map cleanup_delete_item ([[''cache'', ''1f'', ''A'']] @ [[''cache'', ''2e'', ''B'']]),
        store_locked\<lparr>entries := filter (\<lambda>(p, _). p \<notin> set [[''cache'', ''1f'', ''A'']]) (entries store_locked)\<rparr>)"
    and evs: "list_all search_event evs"
    by blast
  have "fst (cleanup insertion_sort opts_day False 200000000 [''cache''] store_locked) = Inl (IOFault EACCES)"
    by code_simp
  with r have "e = EACCES" by simp
  with r evs show ?thesis
    by (auto simp: store_locked_def)
qed

text \<open>
  Claim C3 as stated fails: with three marked files of which the second cannot be
  unlinked, the cleanup call fails, and the third file is neither announced nor deleted.
\<close>

theorem cleanup_delete_failure_counterexample:
  "klaw store_locked [''cache''] = Inr items_locked \<and>
   [''cache'', ''3d'', ''C''] \<in> set (marked insertion_sort opts_day 200000000 items_locked) \<and>
   fst (cleanup insertion_sort opts_day False 200000000 [''cache''] store_locked)
     = Inl (IOFault EACCES) \<and>
   cleanup_delete_item [''cache'', ''3d'', ''C'']
     \<notin> set (fst (snd (cleanup insertion_sort opts_day False 200000000 [''cache''] store_locked))) \<and>
   map_of (entries (snd (snd
       (cleanup insertion_sort opts_day False 200000000 [''cache''] store_locked))))
     [''cache'', ''3d'', ''C''] = Some \<lparr>isDirectory = False, st_size = 10, atime = 3\<rparr>"
  by code_simp

subsection \<open>Temporary files and the walk\<close>











subsection \<open>The size pass\<close>

lemma budget_klaw: "klaw store_budget [''cache''] = Inr items_budget"
  by code_simp

lemma budget_walk: "deleteItems (walk (100 - 50) items_budget) = [[''cache'', ''1f'', ''A'']]"
  by code_simp

lemma budget_marked:
  "marked insertion_sort opts_budget 100 items_budget
     = [[''cache'', ''1f'', ''A''], [''cache'', ''1f'', ''A'']]"
  by code_simp

lemma budget_marked_unsorted:
  "marked (\<lambda>cmp xs. xs) opts_budget 100 items_budget
     = [[''cache'', ''1f'', ''A''], [''cache'', ''1f'', ''A'']]"
  by code_simp

lemma budget_dry_run:
  "last (fst (snd (cleanup insertion_sort opts_budget True 100 [''cache''] store_budget)))
     = cleanup_delete_finish (Progress 3 30 2 20)"
  by code_simp

lemma budget_run:
  "fst (cleanup insertion_sort opts_budget False 100 [''cache''] store_budget)
     = Inl (IOFault ENOENT)"
  by code_simp

text \<open>
  With no file expired, the size pass on the same three files marks the two oldest and
  leaves the newest.
\<close>

lemma size_pass_example:
  "marked insertion_sort
     \<lparr>expireTimeSpan = \<lparr>isValid = True, asMilliseconds = 1000\<rparr>, maxCacheSize = 15\<rparr>
     100 items_budget
     = [[''cache'', ''1f'', ''A''], [''cache'', ''2e'', ''B'']]"
  by code_simp

text \<open>
  Claim C1, on the code: the size pass does not draw from the retained files only. The
  loop runs over \<^verbatim>\<open>allItems\<close>, which still holds the files the walk has marked. With the
  file \<^verbatim>\<open>A\<close> expired and 20 retained bytes against a limit of 15, the pass marks \<^verbatim>\<open>A\<close> a
  second time, counts its 10 bytes twice and stops: no retained file is marked, the
  totals report 2 files and 20 bytes to delete, and a run that is not dry fails at the
  second \<^verbatim>\<open>unlink\<close> of \<^verbatim>\<open>A\<close>. The outcome is the same whether the engine sorts or leaves
  the array as it is.
\<close>

theorem size_pass_marks_expired_file_again:
  "klaw store_budget [''cache''] = Inr items_budget \<and>
   deleteItems (walk (100 - 50) items_budget) = [[''cache'', ''1f'', ''A'']] \<and>
   marked insertion_sort opts_budget 100 items_budget
     = [[''cache'', ''1f'', ''A''], [''cache'', ''1f'', ''A'']] \<and>
   marked (\<lambda>cmp xs. xs) opts_budget 100 items_budget
     = [[''cache'', ''1f'', ''A''], [''cache'', ''1f'', ''A'']] \<and>
   last (fst (snd (cleanup insertion_sort opts_budget True 100 [''cache''] store_budget)))
     = cleanup_delete_finish (Progress 3 30 2 20) \<and>
   fst (cleanup insertion_sort opts_budget False 100 [''cache''] store_budget)
     = Inl (IOFault ENOENT)"
  by (intro conjI budget_klaw budget_walk budget_marked budget_marked_unsorted
      budget_dry_run budget_run)

theorem size_pass_marks_expired_file_again_witness:
  "isValid (expireTimeSpan opts_budget) \<and> asMilliseconds (expireTimeSpan opts_budget) \<noteq> 0 \<and>
   0 < maxCacheSize opts_budget \<and>
   [''cache'', ''2e'', ''B''] \<notin> set (marked insertion_sort opts_budget 100 items_budget) \<and>
   \<not> distinct (marked insertion_sort opts_budget 100 items_budget)"
proof -
  from size_pass_marks_expired_file_again
  have "marked insertion_sort opts_budget 100 items_budget
     = [[''cache'', ''1f'', ''A''], [''cache'', ''1f'', ''A'']]"
    by (elim conjE)
  then show ?thesis
    by (simp add: opts_budget_def)
qed

subsection \<open>The totals of a dry run\<close>

lemma budget_dry_store:
  "snd (snd (cleanup insertion_sort opts_budget True 100 [''cache''] store_budget)) = store_budget"
  by code_simp

lemma budget_run_store:
  "map fst (entries (snd (snd (cleanup insertion_sort opts_budget False 100 [''cache''] store_budget))))
     = [[''cache''], [''cache'', ''2e'', ''B''], [''cache'', ''3d'', ''C'']]"
  by code_simp

lemma budget_run_events:
  "filter (\<lambda>ev. \<not> search_event ev)
       (fst (snd (cleanup insertion_sort opts_budget False 100 [''cache''] store_budget)))
     = [cleanup_search_finish (Progress 3 30 2 20),
        cleanup_delete_item [''cache'', ''1f'', ''A''],
        cleanup_delete_item [''cache'', ''1f'', ''A'']]"
  by code_simp

lemma budget_no_limit:
  "last (fst (snd (cleanup insertion_sort (opts_budget\<lparr>maxCacheSize := 0\<rparr>) True 100 [''cache''] store_budget)))
     = cleanup_delete_finish (Progress 3 30 1 10)"
  by code_simp

text \<open>
  Claim C6, on the code: the totals count marks, not files. On the store of three files
  of 10 bytes with \<^verbatim>\<open>A\<close> expired and a limit of 15 bytes, the walk marks \<^verbatim>\<open>A\<close> and the size
  pass marks it again. The dry run leaves the store as it was and reports 2 files and 20
  bytes to delete. The run that is not dry announces \<^verbatim>\<open>A\<close> twice, fails at the second
  \<^verbatim>\<open>unlink\<close> with ENOENT, and has removed \<^verbatim>\<open>A\<close> alone: one file of 10 bytes. With no size
  limit the dry run on the same store reports 1 file and 10 bytes.
\<close>

theorem dry_run_totals_count_a_file_twice:
  "klaw store_budget [''cache''] = Inr items_budget \<and>
   marked insertion_sort opts_budget 100 items_budget
     = [[''cache'', ''1f'', ''A''], [''cache'', ''1f'', ''A'']] \<and>
   snd (snd (cleanup insertion_sort opts_budget True 100 [''cache''] store_budget)) = store_budget \<and>
   last (fst (snd (cleanup insertion_sort opts_budget True 100 [''cache''] store_budget)))
     = cleanup_delete_finish (Progress 3 30 2 20) \<and>
   fst (cleanup insertion_sort opts_budget False 100 [''cache''] store_budget)
     = Inl (IOFault ENOENT) \<and>
   filter (\<lambda>ev. \<not> search_event ev)
       (fst (snd (cleanup insertion_sort opts_budget False 100 [''cache''] store_budget)))
     = [cleanup_search_finish (Progress 3 30 2 20),
        cleanup_delete_item [''cache'', ''1f'', ''A''],
        cleanup_delete_item [''cache'', ''1f'', ''A'']] \<and>
   map fst (entries (snd (snd (cleanup insertion_sort opts_budget False 100 [''cache''] store_budget))))
     = [[''cache''], [''cache'', ''2e'', ''B''], [''cache'', ''3d'', ''C'']] \<and>
   last (fst (snd (cleanup insertion_sort (opts_budget\<lparr>maxCacheSize := 0\<rparr>) True 100
       [''cache''] store_budget)))
     = cleanup_delete_finish (Progress 3 30 1 10)"
  by (intro conjI budget_klaw budget_marked budget_dry_store budget_dry_run budget_run
      budget_run_events budget_run_store budget_no_limit)

theorem dry_run_totals_count_a_file_twice_witness:
  "isValid (expireTimeSpan opts_budget) \<and> asMilliseconds (expireTimeSpan opts_budget) \<noteq> 0 \<and>
   0 < maxCacheSize opts_budget \<and>
   length (entries store_budget)
     - length (entries (snd (snd (cleanup insertion_sort opts_budget False 100 [''cache''] store_budget))))
     = 1"
proof -
  from dry_run_totals_count_a_file_twice
  have "map fst (entries (snd (snd (cleanup insertion_sort opts_budget False 100 [''cache''] store_budget))))
     = [[''cache''], [''cache'', ''2e'', ''B''], [''cache'', ''3d'', ''C'']]"
    by (elim conjE)
  then have "length (entries (snd (snd (cleanup insertion_sort opts_budget False 100 [''cache''] store_budget)))) = 3"
    by (metis length_map length_Cons list.size(3) numeral_3_eq_3)
  then show ?thesis
    by (simp add: opts_budget_def store_budget_def)
qed

end
